theory Spec2Isabelle
  imports Complex_Main "HOL-Library.AList" "HOL-Library.Sublist" "HOL-Library.Log_Nat"
begin

section \<open>JavaScript values\<close>

text \<open>
  A JavaScript number is an IEEE 754 binary64 value. A finite one is the rational it
  denotes; \<^verbatim>\<open>JSON.parse\<close> also gives the infinities (for a literal out of range) and
  never NaN.
\<close>

datatype js_number = Finite rat | PosInfinity | NegInfinity

text \<open>
  Values that cross the HTTP and WebSocket boundary are JSON documents read by
  \<^verbatim>\<open>response.json()\<close> or \<^verbatim>\<open>JSON.parse\<close>; \<open>JUndefined\<close> is what reading
  an absent property gives. An object is an association list looked up with
  \<open>map_of\<close>.
\<close>

datatype jsval =
    JUndefined
  | JNull
  | JBool bool
  | JNum js_number
  | JStr string
  | JArr "jsval list"
  | JObj "(string \<times> jsval) list"

text \<open>Truthiness, as the operator \<^verbatim>\<open>||\<close> tests it.\<close>

fun truthy :: "jsval \<Rightarrow> bool" where
  "truthy JUndefined = False"
| "truthy JNull = False"
| "truthy (JBool b) = b"
| "truthy (JNum (Finite q)) = (q \<noteq> 0)"
| "truthy (JNum n) = True"
| "truthy (JStr s) = (s \<noteq> [])"
| "truthy (JArr xs) = True"
| "truthy (JObj kvs) = True"

definition js_or :: "jsval \<Rightarrow> jsval \<Rightarrow> jsval" where
  "js_or a b = (if truthy a then a else b)"

text \<open>
  Reading a named property. On \<^verbatim>\<open>null\<close> and \<^verbatim>\<open>undefined\<close> the read throws a
  TypeError (\<open>nullish\<close>); on every other value it gives the own property or
  \<^verbatim>\<open>undefined\<close>. The names read by the code (\<^verbatim>\<open>detail\<close>, \<^verbatim>\<open>message\<close>, \<^verbatim>\<open>code\<close>,
  \<^verbatim>\<open>details\<close>) are not prototype properties of strings, numbers, booleans or arrays.
\<close>

fun nullish :: "jsval \<Rightarrow> bool" where
  "nullish JUndefined = True"
| "nullish JNull = True"
| "nullish v = False"

fun prop_of :: "jsval \<Rightarrow> string \<Rightarrow> jsval" where
  "prop_of (JObj kvs) k = (case map_of kvs k of Some v \<Rightarrow> v | None \<Rightarrow> JUndefined)"
| "prop_of v k = JUndefined"

text \<open>Decimal rendering of a natural number inside a template literal.\<close>

definition digit_char :: "nat \<Rightarrow> char" where
  "digit_char d = ''0123456789'' ! d"

fun show_nat :: "nat \<Rightarrow> string" where
  "show_nat n = (if n < 10 then [digit_char n] else show_nat (n div 10) @ [digit_char (n mod 10)])"

declare show_nat.simps [simp del]

text \<open>
  The abstract operation ToString, which the \<^verbatim>\<open>Error\<close> constructor applies to its
  message. \<open>None\<close> is a thrown TypeError. An array is joined with commas, \<^verbatim>\<open>null\<close>
  and \<^verbatim>\<open>undefined\<close> elements giving the empty string. A plain object gives
  \<^verbatim>\<open>[object Object]\<close> through \<^verbatim>\<open>Object.prototype.toString\<close>, unless it has an own
  property \<^verbatim>\<open>toString\<close>: coming from JSON that property is not callable, the inherited
  \<^verbatim>\<open>valueOf\<close> returns the object itself, and the conversion throws. The rendering of
  a number (\<^verbatim>\<open>Number.prototype.toString\<close>) is the parameter \<open>ns\<close>.
\<close>

fun ToString :: "(js_number \<Rightarrow> string) \<Rightarrow> jsval \<Rightarrow> string option"
  and join_elements :: "(js_number \<Rightarrow> string) \<Rightarrow> jsval list \<Rightarrow> string option" where
  "ToString ns JUndefined = Some ''undefined''"
| "ToString ns JNull = Some ''null''"
| "ToString ns (JBool b) = Some (if b then ''true'' else ''false'')"
| "ToString ns (JNum n) = Some (ns n)"
| "ToString ns (JStr s) = Some s"
| "ToString ns (JArr xs) = join_elements ns xs"
| "ToString ns (JObj kvs) =
     (if ''toString'' \<in> set (map fst kvs) then None else Some ''[object Object]'')"
| "join_elements ns [] = Some ''''"
| "join_elements ns (x # xs) =
     (case (if nullish x then Some '''' else ToString ns x) of
        None \<Rightarrow> None
      | Some a \<Rightarrow>
          if xs = [] then Some a
          else (case join_elements ns xs of None \<Rightarrow> None | Some b \<Rightarrow> Some (a @ '','' @ b)))"

section \<open>Binary64 arithmetic\<close>

text \<open>
  The arithmetic of the components is IEEE 754 binary64 with round to nearest, ties
  to even. \<open>round64 x\<close> is the binary64 number nearest to the rational \<open>x\<close>:
  \<open>ilog2 x\<close> is the exponent \<open>e\<close> with \<open>2^e \<le> x < 2^(e+1)\<close>, and \<open>x\<close> is rounded to
  a multiple of \<open>2^(e-52)\<close>, which leaves 53 significant bits. The exponent is not
  bounded here: the values computed below lie between \<open>2^-32\<close> and 100 (an array has
  fewer than \<open>2^32\<close> elements), far from overflow and from the subnormal numbers, and
  a length below \<open>2^53\<close> is a binary64 number exactly.
\<close>

definition rne :: "rat \<Rightarrow> int" where
  "rne x = (let f = \<lfloor>x\<rfloor>; r = x - of_int f
            in if r < 1 / 2 then f else if 1 / 2 < r then f + 1 else if even f then f else f + 1)"

definition ilog2 :: "rat \<Rightarrow> int" where
  "ilog2 x = (let k = bitlen (fst (quotient_of x)) - bitlen (snd (quotient_of x))
              in if 2 powi k \<le> x then k else k - 1)"

definition round64 :: "rat \<Rightarrow> rat" where
  "round64 x =
     (if x = 0 then 0
      else sgn x * (of_int (rne (\<bar>x\<bar> / 2 powi (ilog2 \<bar>x\<bar> - 52))) * 2 powi (ilog2 \<bar>x\<bar> - 52)))"

text \<open>
  Division and multiplication of finite numbers. A division by zero does not throw,
  it gives NaN or an infinity: \<open>js_div\<close> returns \<open>None\<close> for those.
\<close>

definition js_div :: "rat \<Rightarrow> rat \<Rightarrow> rat option" where
  "js_div a b = (if b = 0 then None else Some (round64 (a / b)))"

definition js_mult :: "rat \<Rightarrow> rat \<Rightarrow> rat" where
  "js_mult a b = round64 (a * b)"

section \<open>The API client (frontend/src/lib/api.ts)\<close>

text \<open>
  A fetched \<^verbatim>\<open>Response\<close>. \<open>json\<close> is the outcome of \<^verbatim>\<open>response.json()\<close>: \<open>None\<close>
  when the body is not a JSON document and the promise rejects with a SyntaxError.
\<close>

record Response =
  ok :: bool
  status :: nat
  statusText :: string
  json :: "jsval option"

text \<open>
  \<^verbatim>\<open>class ApiError extends Error\<close> (lines 20-30). \<^verbatim>\<open>super(message)\<close> stores the
  string conversion of its argument, so \<open>message\<close> is a string; \<^verbatim>\<open>status\<close>, \<^verbatim>\<open>code\<close>
  and \<^verbatim>\<open>details\<close> are parameter properties and hold their arguments as they are,
  whatever the error body carried.
\<close>

record ApiError =
  message :: string
  api_status :: nat
  code :: jsval
  details :: jsval

datatype js_error =
    ApiError ApiError
  | SyntaxError
  | TypeError
  | InvalidStateError

definition new_ApiError ::
  "(js_number \<Rightarrow> string) \<Rightarrow> jsval \<Rightarrow> nat \<Rightarrow> jsval \<Rightarrow> jsval \<Rightarrow> js_error" where
  "new_ApiError ns message' status' code' details' =
     (case ToString ns message' of
        None \<Rightarrow> TypeError
      | Some m \<Rightarrow> ApiError \<lparr>message = m, api_status = status', code = code', details = details'\<rparr>)"

text \<open>
  \<^verbatim>\<open>handleApiResponse\<close>, lines 32-50. \<open>Inl\<close> is a rejected promise. In the
  \<^verbatim>\<open>try\<close> block only \<^verbatim>\<open>await response.json()\<close> and the first property read can
  throw, both before any assignment, and the \<^verbatim>\<open>catch\<close> then keeps the defaults.
  Line 47 throws what \<^verbatim>\<open>new ApiError\<close> gives, or what it throws.
\<close>

definition default_message :: "Response \<Rightarrow> string" where
  "default_message response =
     ''API Error: '' @ show_nat (status response) @ '' '' @ statusText response"

definition handleApiResponse :: "(js_number \<Rightarrow> string) \<Rightarrow> Response \<Rightarrow> js_error + jsval" where
  "handleApiResponse ns response =
     (if \<not> ok response then
        (let errorMessage = JStr (default_message response);
             errorCode = JStr ''UNKNOWN_ERROR'';
             errorDetails = JUndefined;
             (errorMessage, errorCode, errorDetails) =
               (case json response of
                  None \<Rightarrow> (errorMessage, errorCode, errorDetails)
                | Some errorBody \<Rightarrow>
                    if nullish errorBody then (errorMessage, errorCode, errorDetails)
                    else (js_or (js_or (prop_of errorBody ''detail'') (prop_of errorBody ''message''))
                            errorMessage,
                          js_or (prop_of errorBody ''code'') errorCode,
                          prop_of errorBody ''details''))
         in Inl (new_ApiError ns errorMessage (status response) errorCode errorDetails))
      else (case json response of None \<Rightarrow> Inl SyntaxError | Some v \<Rightarrow> Inr v))"

section \<open>Data model (the type declarations of lib/types.ts)\<close>


text \<open>
  \<^verbatim>\<open>LiveResearchSession\<close>, whose \<^verbatim>\<open>status\<close> field has the inline type
  \<^verbatim>\<open>"active" | "ended" | "error"\<close>.
\<close>

datatype LiveResearchSession_status = active | ended | error

record LiveResearchSession =
  session_id :: string
  topic :: string
  session_status :: LiveResearchSession_status
  started_at :: string
  modalities :: "string list"
  participants :: "nat option"

text \<open>
  \<^verbatim>\<open>Reference\<close> and \<^verbatim>\<open>ResearchResult\<close>, with the fields the components below read.
  \<^verbatim>\<open>references\<close> is declared mandatory, but \<^verbatim>\<open>ResearchProgress\<close> reads it with
  \<^verbatim>\<open>?.\<close>, so an absent field is a value of the model. A confidence score is a
  finite binary64 number, held as the rational number it denotes.
\<close>

record Reference =
  title :: string
  url :: string
  accessed_date :: string
  confidence_score :: "rat option"

record ResearchResult =
  result_topic :: string
  content :: string
  references :: "Reference list option"
  word_count :: nat
  result_confidence_score :: rat

section \<open>ResearchProgress (components/ProgressTrackng.tsx)\<close>

text \<open>
  Lines 7-9. \<^verbatim>\<open>x || 0\<close> turns an absent value into 0. The literal \<^verbatim>\<open>0.8\<close> is the
  binary64 number nearest to 8/10; the comparison of two numbers is exact. The
  quotient is rounded, and so is its product with 100.
\<close>

definition or_zero :: "rat option \<Rightarrow> rat" where
  "or_zero x = (case x of None \<Rightarrow> 0 | Some c \<Rightarrow> c)"

definition totalSources :: "ResearchResult \<Rightarrow> nat" where
  "totalSources resultData = (case references resultData of None \<Rightarrow> 0 | Some refs \<Rightarrow> length refs)"

definition highConfidenceSources :: "ResearchResult \<Rightarrow> nat" where
  "highConfidenceSources resultData =
     (case references resultData of
        None \<Rightarrow> 0
      | Some refs \<Rightarrow>
          length (filter (\<lambda>ref. or_zero (confidence_score ref) > round64 (8 / 10)) refs))"

definition progressPercentage :: "ResearchResult \<Rightarrow> rat option" where
  "progressPercentage resultData =
     (if totalSources resultData > 0
      then map_option (\<lambda>q. js_mult q 100)
             (js_div (of_nat (highConfidenceSources resultData)) (of_nat (totalSources resultData)))
      else Some 0)"

section \<open>Batch aggregation\<close>

text \<open>
  Modelled from the spec: the BatchCoordinator's \<^verbatim>\<open>aggregate\<close> operation and the member
  jobs it reads (spec sections 3, 4.2, 8 and 9). The backend that computes a batch
  result is not among the sources; the client only declares the shape of the reply
  (\<^verbatim>\<open>BatchResearchResult\<close>) and fetches it (\<^verbatim>\<open>getBatchResearchResults\<close>). Per the spec
  a job's status is one of five values, three of them terminal; \<^verbatim>\<open>aggregate\<close> counts
  the members in each terminal outcome, a cancelled member being a bucket of its own,
  never blocks, and flags whether the batch is completed, that is, whether every
  member is terminal.
\<close>

datatype spec_status = Queued | InProgress | Completed | Failed | Cancelled

record spec_Job =
  spec_id :: string
  spec_job_status :: spec_status

fun terminal :: "spec_status \<Rightarrow> bool" where
  "terminal Completed = True"
| "terminal Failed = True"
| "terminal Cancelled = True"
| "terminal s = False"

record BatchResult =
  completed_count :: nat
  failed_count :: nat
  cancelled_count :: nat
  batch_completed :: bool

definition count_status :: "spec_status \<Rightarrow> spec_Job list \<Rightarrow> nat" where
  "count_status s members = length (filter (\<lambda>j. spec_job_status j = s) members)"

definition aggregate :: "spec_Job list \<Rightarrow> BatchResult" where
  "aggregate members =
     \<lparr>completed_count = count_status Completed members,
      failed_count = count_status Failed members,
      cancelled_count = count_status Cancelled members,
      batch_completed = list_all (\<lambda>j. terminal (spec_job_status j)) members\<rparr>"

section \<open>Job lifecycle\<close>

text \<open>
  Modelled from the spec: the JobLifecycleManager and the job operations it serves
  (spec sections 3, 4.1, 5, 6 and 7). The backend that owns a job's status is not among
  the sources; the client only declares the shape of the replies and calls the
  endpoints. A job carries, besides its id and status, its progress and the advisory
  cancellation flag of section 5. The wire form of a status is its name in section 3.
\<close>

record lifecycle_Job = spec_Job +
  job_progress :: rat
  cancel_requested :: bool

type_synonym JobStore = "lifecycle_Job list"

fun spec_status_literal :: "spec_status \<Rightarrow> string" where
  "spec_status_literal Queued = ''queued''"
| "spec_status_literal InProgress = ''in_progress''"
| "spec_status_literal Completed = ''completed''"
| "spec_status_literal Failed = ''failed''"
| "spec_status_literal Cancelled = ''cancelled''"

text \<open>
  Modelled from the spec: the error taxonomy of section 7, as far as the job
  operations raise it.
\<close>

datatype spec_error = NotFound | InvalidTransition

text \<open>Modelled from the spec: \<^verbatim>\<open>get(job_id)\<close>, a read-only snapshot, NotFound if unknown.\<close>

definition get_job :: "JobStore \<Rightarrow> string \<Rightarrow> spec_error + lifecycle_Job" where
  "get_job store job =
     (case find (\<lambda>j. spec_id j = job) store of None \<Rightarrow> Inl NotFound | Some j \<Rightarrow> Inr j)"

definition put_job :: "JobStore \<Rightarrow> lifecycle_Job \<Rightarrow> JobStore" where
  "put_job store j' = map (\<lambda>j. if spec_id j = spec_id j' then j' else j) store"

text \<open>
  Modelled from the spec: \<^verbatim>\<open>submit\<close> allocates an id, persists a job in \<^verbatim>\<open>queued\<close>
  and returns at once. The ids are the decimal numbers in the order of submission.
\<close>

definition submit :: "JobStore \<Rightarrow> string \<times> JobStore" where
  "submit store =
     (show_nat (length store),
      store @ [\<lparr>spec_id = show_nat (length store), spec_job_status = Queued,
                job_progress = 0, cancel_requested = False\<rparr>])"

text \<open>
  Modelled from the spec: \<^verbatim>\<open>dispatch\<close> takes a job from \<^verbatim>\<open>queued\<close> to
  \<^verbatim>\<open>in_progress\<close> and fails with InvalidTransition from any other status.
\<close>

definition dispatch :: "JobStore \<Rightarrow> string \<Rightarrow> spec_error + JobStore" where
  "dispatch store job =
     (case get_job store job of
        Inl e \<Rightarrow> Inl e
      | Inr j \<Rightarrow>
          if spec_job_status j = Queued
          then Inr (put_job store (j\<lparr>spec_job_status := InProgress\<rparr>))
          else Inl InvalidTransition)"

text \<open>
  Modelled from the spec: \<^verbatim>\<open>reportProgress\<close> is valid only while \<^verbatim>\<open>in_progress\<close>,
  clamps the value to [0,1] and rejects a decreasing one without failing; an update
  that arrives after a terminal status is discarded.
\<close>

definition reportProgress :: "JobStore \<Rightarrow> string \<Rightarrow> rat \<Rightarrow> spec_error + JobStore" where
  "reportProgress store job v =
     (case get_job store job of
        Inl e \<Rightarrow> Inl e
      | Inr j \<Rightarrow>
          if spec_job_status j = InProgress
          then (if max 0 (min 1 v) < job_progress j then Inr store
                else Inr (put_job store (j\<lparr>job_progress := max 0 (min 1 v)\<rparr>)))
          else if terminal (spec_job_status j) then Inr store
          else Inl InvalidTransition)"

text \<open>
  Modelled from the spec: \<^verbatim>\<open>succeed\<close> and \<^verbatim>\<open>fail\<close> are valid only from
  \<^verbatim>\<open>in_progress\<close> and set the terminal status; on a job that is already terminal
  they are a no-op that keeps the terminal status.
\<close>

definition finish :: "spec_status \<Rightarrow> JobStore \<Rightarrow> string \<Rightarrow> spec_error + JobStore" where
  "finish outcome store job =
     (case get_job store job of
        Inl e \<Rightarrow> Inl e
      | Inr j \<Rightarrow>
          if spec_job_status j = InProgress
          then Inr (put_job store (j\<lparr>spec_job_status := outcome\<rparr>))
          else if terminal (spec_job_status j) then Inr store
          else Inl InvalidTransition)"

definition succeed :: "JobStore \<Rightarrow> string \<Rightarrow> spec_error + JobStore" where
  "succeed store job = finish Completed store job"

definition fail :: "JobStore \<Rightarrow> string \<Rightarrow> spec_error + JobStore" where
  "fail store job = finish Failed store job"

text \<open>
  Modelled from the spec: \<^verbatim>\<open>cancel\<close> is valid from \<^verbatim>\<open>queued\<close> and from
  \<^verbatim>\<open>in_progress\<close>. A queued job is cancelled at once. For a job in progress the
  advisory flag is set, and the job becomes cancelled when the executor acknowledges
  or the grace period runs out (\<open>cancel_elapsed\<close>, whichever of the two it is), unless
  it has reached another terminal status before. On a terminal job \<^verbatim>\<open>cancel\<close> is an
  InvalidTransition.
\<close>

definition cancel :: "JobStore \<Rightarrow> string \<Rightarrow> spec_error + JobStore" where
  "cancel store job =
     (case get_job store job of
        Inl e \<Rightarrow> Inl e
      | Inr j \<Rightarrow>
          if spec_job_status j = Queued
          then Inr (put_job store (j\<lparr>spec_job_status := Cancelled\<rparr>))
          else if spec_job_status j = InProgress
          then Inr (put_job store (j\<lparr>cancel_requested := True\<rparr>))
          else Inl InvalidTransition)"

definition cancel_elapsed :: "JobStore \<Rightarrow> string \<Rightarrow> spec_error + JobStore" where
  "cancel_elapsed store job =
     (case get_job store job of
        Inl e \<Rightarrow> Inl e
      | Inr j \<Rightarrow>
          if spec_job_status j = InProgress \<and> cancel_requested j
          then Inr (put_job store (j\<lparr>spec_job_status := Cancelled\<rparr>))
          else Inr store)"

text \<open>
  Modelled from the spec: the request/response surface of section 6 for a job. Submit
  answers \<^verbatim>\<open>{job_id, status}\<close>, the status query \<^verbatim>\<open>{status, progress}\<close>, and cancel
  \<^verbatim>\<open>{accepted}\<close>. By the propagation policy of section 7 only a lookup of an
  unknown job is an error for the caller; the InvalidTransition of a cancellation that
  the job's status does not permit is surfaced in the reply, as \<^verbatim>\<open>accepted\<close> false,
  and changes nothing.
\<close>

record SubmitReply =
  reply_job_id :: string
  submit_status :: string

record StatusReply =
  reply_status :: string
  reply_progress :: rat

record CancelReply =
  accepted :: bool

definition submit_job :: "JobStore \<Rightarrow> SubmitReply \<times> JobStore" where
  "submit_job store =
     (\<lparr>reply_job_id = fst (submit store), submit_status = spec_status_literal Queued\<rparr>,
      snd (submit store))"

definition status_query :: "JobStore \<Rightarrow> string \<Rightarrow> spec_error + StatusReply" where
  "status_query store job =
     (case get_job store job of
        Inl e \<Rightarrow> Inl e
      | Inr j \<Rightarrow> Inr \<lparr>reply_status = spec_status_literal (spec_job_status j),
                      reply_progress = job_progress j\<rparr>)"

definition cancel_job :: "JobStore \<Rightarrow> string \<Rightarrow> spec_error + CancelReply \<times> JobStore" where
  "cancel_job store job =
     (case get_job store job of
        Inl e \<Rightarrow> Inl e
      | Inr j \<Rightarrow>
          (case cancel store job of
             Inl e \<Rightarrow> Inr (\<lparr>accepted = False\<rparr>, store)
           | Inr store' \<Rightarrow> Inr (\<lparr>accepted = True\<rparr>, store')))"

text \<open>
  Modelled from the spec: what can happen to the store, in any order; an operation
  that fails leaves the store as it is.
\<close>

datatype lifecycle_op =
    Submit
  | Dispatch string
  | ReportProgress string rat
  | Succeed string
  | Fail string
  | Cancel string
  | CancelElapsed string

definition keep_on_error :: "JobStore \<Rightarrow> spec_error + JobStore \<Rightarrow> JobStore" where
  "keep_on_error store r = (case r of Inl e \<Rightarrow> store | Inr store' \<Rightarrow> store')"

fun lifecycle_step :: "JobStore \<Rightarrow> lifecycle_op \<Rightarrow> JobStore" where
  "lifecycle_step store Submit = snd (submit store)"
| "lifecycle_step store (Dispatch job) = keep_on_error store (dispatch store job)"
| "lifecycle_step store (ReportProgress job v) = keep_on_error store (reportProgress store job v)"
| "lifecycle_step store (Succeed job) = keep_on_error store (succeed store job)"
| "lifecycle_step store (Fail job) = keep_on_error store (fail store job)"
| "lifecycle_step store (Cancel job) = keep_on_error store (map_sum id snd (cancel_job store job))"
| "lifecycle_step store (CancelElapsed job) = keep_on_error store (cancel_elapsed store job)"

definition lifecycle_run :: "JobStore \<Rightarrow> lifecycle_op list \<Rightarrow> JobStore" where
  "lifecycle_run store ops = foldl lifecycle_step store ops"

section \<open>Live sessions\<close>

text \<open>
  Modelled from the spec: the LiveSessionManager and the SessionGateway (spec sections
  3 and 4.3). The backend that owns a session's state is not among the sources; the
  client only declares the shape of the session it is sent. A session is created
  active, ends on \<^verbatim>\<open>endSession\<close> and becomes errored when the transport disconnects,
  unless \<^verbatim>\<open>endSession\<close> was called before; every message is appended to the log, and
  a session that is not active rejects \<^verbatim>\<open>postMessage\<close> with SessionClosed.
\<close>

datatype spec_session_state = Active | Ended | Errored

fun spec_session_state_literal :: "spec_session_state \<Rightarrow> string" where
  "spec_session_state_literal Active = ''active''"
| "spec_session_state_literal Ended = ''ended''"
| "spec_session_state_literal Errored = ''errored''"

datatype spec_sender = User | Assistant | System

record spec_LogEntry =
  entry_sender :: spec_sender
  entry_content :: string
  entry_message_type :: string

record spec_LiveSession =
  spec_session_id :: string
  spec_topic :: string
  spec_state :: spec_session_state
  message_log :: "spec_LogEntry list"

datatype spec_session_error = SessionClosed

text \<open>Modelled from the spec: \<^verbatim>\<open>startSession\<close> creates a session in state \<^verbatim>\<open>active\<close>.\<close>

definition startSession :: "string \<Rightarrow> string \<Rightarrow> spec_LiveSession" where
  "startSession sid topic' =
     \<lparr>spec_session_id = sid, spec_topic = topic', spec_state = Active, message_log = []\<rparr>"

text \<open>
  Modelled from the spec: \<^verbatim>\<open>postMessage\<close> appends to the log in arrival order (the
  executor's reply to a user message arrives as a message of the assistant); a closed
  session rejects it.
\<close>

definition postMessage ::
  "spec_LiveSession \<Rightarrow> spec_sender \<Rightarrow> string \<Rightarrow> string \<Rightarrow> spec_session_error + spec_LiveSession" where
  "postMessage s sender' content' message_type' =
     (if spec_state s = Active
      then Inr (s\<lparr>message_log := message_log s @
                   [\<lparr>entry_sender = sender', entry_content = content',
                     entry_message_type = message_type'\<rparr>]\<rparr>)
      else Inl SessionClosed)"

text \<open>
  Modelled from the spec: \<^verbatim>\<open>endSession\<close> takes an active session to \<^verbatim>\<open>ended\<close>; a
  disconnection of the transport takes it to \<^verbatim>\<open>errored\<close> unless it has ended.
\<close>

definition endSession :: "spec_LiveSession \<Rightarrow> spec_LiveSession" where
  "endSession s = (if spec_state s = Active then s\<lparr>spec_state := Ended\<rparr> else s)"

definition disconnect :: "spec_LiveSession \<Rightarrow> spec_LiveSession" where
  "disconnect s = (if spec_state s = Ended then s else s\<lparr>spec_state := Errored\<rparr>)"

datatype session_op =
    PostMessage spec_sender string string
  | EndSession_op
  | Disconnect

fun session_step :: "spec_LiveSession \<Rightarrow> session_op \<Rightarrow> spec_LiveSession" where
  "session_step s (PostMessage sender' content' message_type') =
     (case postMessage s sender' content' message_type' of Inl e \<Rightarrow> s | Inr s' \<Rightarrow> s')"
| "session_step s EndSession_op = endSession s"
| "session_step s Disconnect = disconnect s"

definition session_run :: "spec_LiveSession \<Rightarrow> session_op list \<Rightarrow> spec_LiveSession" where
  "session_run s ops = foldl session_step s ops"

section \<open>LiveResearchSessionComponent (components/BatchLiveResearch.tsx, lines 398-543)\<close>

text \<open>\<^verbatim>\<open>LiveResearchSummary\<close>, with its scalar fields.\<close>

record LiveResearchSummary =
  summary_session_id :: string
  summary_topic :: string
  duration_minutes :: rat
  total_interactions :: nat

text \<open>
  The component's state: the \<^verbatim>\<open>useState\<close> cells and \<^verbatim>\<open>wsRef\<close>, followed by what the
  component has done to the outside: the sockets it created (socket \<open>n\<close> is the
  \<open>n\<close>-th one, with its ready state), the frames accepted by \<^verbatim>\<open>send\<close>, the toasts,
  and the number of \<^verbatim>\<open>startLiveResearchSession\<close> and \<^verbatim>\<open>endLiveResearchSession\<close>
  calls still awaited.
\<close>

datatype readyState = CONNECTING | OPEN | CLOSING | CLOSED

datatype toast = toast_success string | toast_error string | toast_info string

record LiveSession_state =
  session :: "LiveResearchSession option"
  isStarting :: bool
  messages :: "jsval list"
  currentMessage :: string
  isSending :: bool
  summary :: "LiveResearchSummary option"
  sessionDuration :: nat
  wsRef :: "nat option"
  sockets :: "readyState list"
  sent :: "(nat \<times> jsval) list"
  toasts :: "toast list"
  pending_start :: nat
  pending_end :: nat

definition initial_LiveSession_state :: LiveSession_state where
  "initial_LiveSession_state =
     \<lparr>session = None, isStarting = False, messages = [], currentMessage = '''',
      isSending = False, summary = None, sessionDuration = 0, wsRef = None, sockets = [],
      sent = [], toasts = [], pending_start = 0, pending_end = 0\<rparr>"

text \<open>
  Object spread \<^verbatim>\<open>{...data}\<close>: the own enumerable properties of the value, which for
  an array or a string are its indexed elements and for the other primitives none.
\<close>

fun spread :: "jsval \<Rightarrow> (string \<times> jsval) list" where
  "spread (JObj kvs) = kvs"
| "spread (JArr xs) = zip (map show_nat [0..<length xs]) xs"
| "spread (JStr s) = zip (map show_nat [0..<length s]) (map (\<lambda>c. JStr [c]) s)"
| "spread v = []"

text \<open>
  The \<^verbatim>\<open>onMessage\<close> callback of \<^verbatim>\<open>startSession\<close> (lines 429-434); \<open>now\<close> is
  \<^verbatim>\<open>new Date().toISOString()\<close>.
\<close>

definition onMessage :: "LiveSession_state \<Rightarrow> jsval \<Rightarrow> string \<Rightarrow> LiveSession_state" where
  "onMessage st data now =
     st\<lparr>messages := messages st @ [JObj (AList.update ''timestamp'' (JStr now) (spread data))]\<rparr>"

definition onError :: "LiveSession_state \<Rightarrow> LiveSession_state" where
  "onError st = st\<lparr>toasts := toasts st @ [toast_error ''Connection error'']\<rparr>"

definition onClose :: "LiveSession_state \<Rightarrow> LiveSession_state" where
  "onClose st = st\<lparr>toasts := toasts st @ [toast_info ''Session ended'']\<rparr>"

text \<open>
  \<^verbatim>\<open>ws.onmessage\<close> as \<^verbatim>\<open>createLiveResearchWebSocket\<close> installs it (api.ts lines
  180-188): \<open>payload\<close> is the outcome of \<^verbatim>\<open>JSON.parse(event.data)\<close>, \<open>None\<close> when it
  throws.
\<close>

definition ws_onmessage :: "LiveSession_state \<Rightarrow> jsval option \<Rightarrow> string \<Rightarrow> LiveSession_state" where
  "ws_onmessage st payload now =
     (case payload of None \<Rightarrow> onError st | Some data \<Rightarrow> onMessage st data now)"

text \<open>
  \<^verbatim>\<open>WebSocket.send\<close> throws InvalidStateError on a socket that is still connecting,
  transmits on an open one and silently drops the frame on a closing or closed one.
  \<^verbatim>\<open>WebSocket.close\<close> starts the closing handshake unless the socket is already
  closing or closed.
\<close>

definition ws_send :: "LiveSession_state \<Rightarrow> nat \<Rightarrow> jsval \<Rightarrow> js_error + LiveSession_state" where
  "ws_send st w frame =
     (if w < length (sockets st) then
        (case sockets st ! w of
           CONNECTING \<Rightarrow> Inl InvalidStateError
         | OPEN \<Rightarrow> Inr (st\<lparr>sent := sent st @ [(w, frame)]\<rparr>)
         | CLOSING \<Rightarrow> Inr st
         | CLOSED \<Rightarrow> Inr st)
      else Inr st)"

definition ws_close :: "LiveSession_state \<Rightarrow> nat \<Rightarrow> LiveSession_state" where
  "ws_close st w =
     (if w < length (sockets st) \<and> (sockets st ! w = CONNECTING \<or> sockets st ! w = OPEN)
      then st\<lparr>sockets := (sockets st)[w := CLOSING]\<rparr> else st)"

text \<open>
  \<^verbatim>\<open>!currentMessage.trim()\<close>: the text is empty or white space only. Strings are
  UTF-8 byte strings here, so the white space and line terminator characters that
  \<^verbatim>\<open>trim\<close> strips are: the six ASCII ones, U+00A0 (C2 A0), U+1680 (E1 9A 80),
  U+2000 to U+200A, U+2028, U+2029 and U+202F (E2 80 \<open>x\<close>), U+205F (E2 81 9F), U+3000
  (E3 80 80) and U+FEFF (EF BB BF). \<open>white_space_prefix\<close> is the number of bytes of
  the white space character a string starts with, 0 if it starts with none.
\<close>

definition is_white_space :: "char \<Rightarrow> bool" where
  "is_white_space c = (c \<in> set [CHR '' '', CHR 0x09, CHR 0x0A, CHR 0x0B, CHR 0x0C, CHR 0x0D])"

fun white_space_prefix :: "string \<Rightarrow> nat" where
  "white_space_prefix [] = 0"
| "white_space_prefix [c] = (if is_white_space c then 1 else 0)"
| "white_space_prefix [c, d] =
     (if is_white_space c then 1 else if c = CHR 0xC2 \<and> d = CHR 0xA0 then 2 else 0)"
| "white_space_prefix (c # d # e # cs) =
     (if is_white_space c then 1
      else if c = CHR 0xC2 \<and> d = CHR 0xA0 then 2
      else if c = CHR 0xE1 \<and> d = CHR 0x9A \<and> e = CHR 0x80 then 3
      else if c = CHR 0xE2 \<and> d = CHR 0x80 \<and>
              (of_char e \<in> {0x80 .. (0x8A::nat)} \<or> e = CHR 0xA8 \<or> e = CHR 0xA9 \<or> e = CHR 0xAF)
      then 3
      else if c = CHR 0xE2 \<and> d = CHR 0x81 \<and> e = CHR 0x9F then 3
      else if c = CHR 0xE3 \<and> d = CHR 0x80 \<and> e = CHR 0x80 then 3
      else if c = CHR 0xEF \<and> d = CHR 0xBB \<and> e = CHR 0xBF then 3
      else 0)"

fun is_blank_upto :: "nat \<Rightarrow> string \<Rightarrow> bool" where
  "is_blank_upto n [] = True"
| "is_blank_upto 0 (c # cs) = False"
| "is_blank_upto (Suc n) (c # cs) =
     (white_space_prefix (c # cs) \<noteq> 0 \<and>
      is_blank_upto n (drop (white_space_prefix (c # cs)) (c # cs)))"

definition is_blank :: "string \<Rightarrow> bool" where
  "is_blank s = is_blank_upto (length s) s"

text \<open>
  \<^verbatim>\<open>sendMessage\<close>, lines 452-471, run at time \<open>now\<close>. When \<^verbatim>\<open>send\<close> throws, the
  exception leaves the handler after \<^verbatim>\<open>setIsSending(true)\<close> and the rest is skipped.
\<close>

definition sendMessage :: "LiveSession_state \<Rightarrow> string \<Rightarrow> LiveSession_state" where
  "sendMessage st now =
     (if is_blank (currentMessage st) \<or> wsRef st = None \<or> isSending st then st
      else
        (case ws_send (st\<lparr>isSending := True\<rparr>) (the (wsRef st))
                (JObj [(''type'', JStr ''message''), (''content'', JStr (currentMessage st)),
                       (''message_type'', JStr ''text'')]) of
           Inl e \<Rightarrow> st\<lparr>isSending := True\<rparr>
         | Inr st' \<Rightarrow>
             st'\<lparr>messages := messages st' @
                    [JObj [(''type'', JStr ''user_message''), (''content'', JStr (currentMessage st)),
                           (''timestamp'', JStr now), (''sender'', JStr ''user'')]],
                 currentMessage := '''',
                 isSending := False\<rparr>))"

text \<open>
  \<^verbatim>\<open>startSession\<close>, lines 414-450, in its two halves: up to the \<^verbatim>\<open>await\<close>, and the
  continuation once \<^verbatim>\<open>startLiveResearchSession\<close> has settled.
\<close>

definition startSession_call :: "LiveSession_state \<Rightarrow> LiveSession_state" where
  "startSession_call st = st\<lparr>isStarting := True, pending_start := pending_start st + 1\<rparr>"

definition startSession_settled ::
  "LiveSession_state \<Rightarrow> js_error + LiveResearchSession \<Rightarrow> LiveSession_state" where
  "startSession_settled st reply =
     (case reply of
        Inr newSession \<Rightarrow>
          st\<lparr>session := Some newSession,
             sessionDuration := 0,
             wsRef := Some (length (sockets st)),
             sockets := sockets st @ [CONNECTING],
             toasts := toasts st @ [toast_success ''Live session started''],
             isStarting := False\<rparr>
      | Inl e \<Rightarrow>
          st\<lparr>toasts := toasts st @ [toast_error ''Failed to start session''],
             isStarting := False\<rparr>)"

text \<open>
  \<^verbatim>\<open>endSession\<close>, lines 526-543, in its two halves: the guard and the call of
  \<^verbatim>\<open>endLiveResearchSession\<close>, and the continuation once that call has settled.
\<close>

definition endSession_call :: "LiveSession_state \<Rightarrow> LiveSession_state" where
  "endSession_call st =
     (case session st of None \<Rightarrow> st | Some s \<Rightarrow> st\<lparr>pending_end := pending_end st + 1\<rparr>)"

definition endSession_settled ::
  "LiveSession_state \<Rightarrow> js_error + LiveResearchSummary \<Rightarrow> LiveSession_state" where
  "endSession_settled st reply =
     (case reply of
        Inr finalSummary \<Rightarrow>
          (let st1 = st\<lparr>summary := Some finalSummary\<rparr>;
               st2 = (case wsRef st1 of
                        None \<Rightarrow> st1
                      | Some w \<Rightarrow> (ws_close st1 w)\<lparr>wsRef := None\<rparr>)
           in st2\<lparr>session := None, toasts := toasts st2 @ [toast_success ''Session ended'']\<rparr>)
      | Inl e \<Rightarrow> st\<lparr>toasts := toasts st @ [toast_error ''Failed to end session'']\<rparr>)"

text \<open>
  Everything that can happen to the mounted component, in any order: the user's
  actions, the settling of the two API calls (only while one is awaited), socket
  events, the one-second timer of the session.
\<close>

datatype live_event =
    StartSession
  | StartSessionSettled "js_error + LiveResearchSession"
  | EndSession
  | EndSessionSettled "js_error + LiveResearchSummary"
  | SetCurrentMessage string
  | SendMessage string
  | WsOpened nat
  | WsMessage "jsval option" string
  | WsError
  | WsClosed nat
  | CloseSummary
  | DurationTick

fun live_step :: "LiveSession_state \<Rightarrow> live_event \<Rightarrow> LiveSession_state" where
  "live_step st StartSession = startSession_call st"
| "live_step st (StartSessionSettled reply) =
     (if pending_start st = 0 then st
      else startSession_settled (st\<lparr>pending_start := pending_start st - 1\<rparr>) reply)"
| "live_step st EndSession = endSession_call st"
| "live_step st (EndSessionSettled reply) =
     (if pending_end st = 0 then st
      else endSession_settled (st\<lparr>pending_end := pending_end st - 1\<rparr>) reply)"
| "live_step st (SetCurrentMessage text) = st\<lparr>currentMessage := text\<rparr>"
| "live_step st (SendMessage now) = sendMessage st now"
| "live_step st (WsOpened w) =
     (if w < length (sockets st) \<and> sockets st ! w = CONNECTING
      then st\<lparr>sockets := (sockets st)[w := OPEN]\<rparr> else st)"
| "live_step st (WsMessage payload now) = ws_onmessage st payload now"
| "live_step st WsError = onError st"
| "live_step st (WsClosed w) =
     (if w < length (sockets st) \<and> sockets st ! w \<noteq> CLOSED
      then onClose (st\<lparr>sockets := (sockets st)[w := CLOSED]\<rparr>) else st)"
| "live_step st CloseSummary = st\<lparr>summary := None\<rparr>"
| "live_step st DurationTick =
     (case session st of None \<Rightarrow> st | Some s \<Rightarrow> st\<lparr>sessionDuration := sessionDuration st + 1\<rparr>)"

definition live_run :: "LiveSession_state \<Rightarrow> live_event list \<Rightarrow> LiveSession_state" where
  "live_run st evs = foldl live_step st evs"

section \<open>BatchResearchForm (components/BatchLiveResearch.tsx, lines 45-144)\<close>

text \<open>
  The reply of \<^verbatim>\<open>getBatchResearchStatus\<close> (its \<^verbatim>\<open>status\<close> is any string) and
  \<^verbatim>\<open>BatchResearchResult\<close> with its scalar fields; \<open>completed_count_topics\<close> and
  \<open>failed_count_topics\<close> are the numbers that the source also names
  \<^verbatim>\<open>completed_topics\<close> and \<^verbatim>\<open>failed_topics\<close>.
\<close>

record BatchStatusReply =
  batch_id :: string
  batch_status :: string
  batch_progress :: rat
  completed_topics :: "string list"
  failed_topics :: "string list"

record BatchResearchResult =
  result_batch_id :: string
  total_topics :: nat
  completed_count_topics :: nat
  failed_count_topics :: nat
  overall_confidence :: rat
  processing_time_seconds :: rat

text \<open>
  The calls the component makes on the batch API, and what it learns from them, in
  the order in which they happen.
\<close>

datatype api_event =
    Call_getBatchResearchStatus string
  | Returned_getBatchResearchStatus string string
  | Rejected_getBatchResearchStatus string
  | Call_getBatchResearchResults string
  | Returned_getBatchResearchResults string
  | Rejected_getBatchResearchResults string

text \<open>
  The state: the \<^verbatim>\<open>useState\<close> cells, the live polling interval (identified by the
  \<^verbatim>\<open>batchId\<close> its \<^verbatim>\<open>pollStatus\<close> closure holds), the \<^verbatim>\<open>pollStatus\<close> runs suspended
  at one of their two \<^verbatim>\<open>await\<close>s (each with the \<^verbatim>\<open>batchId\<close> of its closure), and the
  API log.
\<close>

record BatchForm_state =
  batchId :: "string option"
  batchStatus :: "BatchStatusReply option"
  results :: "BatchResearchResult option"
  poll_interval :: "string option"
  awaiting_status :: "string list"
  awaiting_results :: "string list"
  api_log :: "api_event list"

definition initial_BatchForm_state :: BatchForm_state where
  "initial_BatchForm_state =
     \<lparr>batchId = None, batchStatus = None, results = None, poll_interval = None,
      awaiting_status = [], awaiting_results = [], api_log = []\<rparr>"

text \<open>\<^verbatim>\<open>pollStatus\<close> up to its first \<^verbatim>\<open>await\<close> (line 128).\<close>

definition pollStatus_call :: "BatchForm_state \<Rightarrow> string \<Rightarrow> BatchForm_state" where
  "pollStatus_call st b =
     st\<lparr>awaiting_status := awaiting_status st @ [b],
        api_log := api_log st @ [Call_getBatchResearchStatus b]\<rparr>"

text \<open>
  \<^verbatim>\<open>pollStatus\<close> from the first \<^verbatim>\<open>await\<close> to the second (lines 128-132) or, when the
  status call rejected, into the \<^verbatim>\<open>catch\<close>.
\<close>

definition pollStatus_status_settled ::
  "BatchForm_state \<Rightarrow> string \<Rightarrow> js_error + BatchStatusReply \<Rightarrow> BatchForm_state" where
  "pollStatus_status_settled st b reply =
     (case reply of
        Inl e \<Rightarrow> st\<lparr>api_log := api_log st @ [Rejected_getBatchResearchStatus b]\<rparr>
      | Inr status' \<Rightarrow>
          (let st1 = st\<lparr>api_log := api_log st @ [Returned_getBatchResearchStatus b (batch_status status')],
                         batchStatus := Some status'\<rparr>
           in if batch_status status' = ''completed''
              then st1\<lparr>awaiting_results := awaiting_results st1 @ [b],
                       api_log := api_log st1 @ [Call_getBatchResearchResults b]\<rparr>
              else st1))"

text \<open>\<^verbatim>\<open>pollStatus\<close> after the second \<^verbatim>\<open>await\<close> (line 133), or into the \<^verbatim>\<open>catch\<close>.\<close>

definition pollStatus_results_settled ::
  "BatchForm_state \<Rightarrow> string \<Rightarrow> js_error + BatchResearchResult \<Rightarrow> BatchForm_state" where
  "pollStatus_results_settled st b reply =
     (case reply of
        Inl e \<Rightarrow> st\<lparr>api_log := api_log st @ [Rejected_getBatchResearchResults b]\<rparr>
      | Inr batchResults \<Rightarrow>
          st\<lparr>api_log := api_log st @ [Returned_getBatchResearchResults b],
             results := Some batchResults\<rparr>)"

text \<open>
  The polling effect (lines 123-144), run when \<^verbatim>\<open>batchId\<close> has changed: the cleanup
  of the previous run clears its interval; without a batch id (\<^verbatim>\<open>null\<close> or the
  empty string) nothing is set up;
  otherwise an interval is created and \<^verbatim>\<open>pollStatus\<close> is called once at once.
\<close>

definition batch_effect :: "BatchForm_state \<Rightarrow> BatchForm_state" where
  "batch_effect st =
     (case batchId st of
        None \<Rightarrow> st\<lparr>poll_interval := None\<rparr>
      | Some b \<Rightarrow>
          if b = [] then st\<lparr>poll_interval := None\<rparr>
          else pollStatus_call (st\<lparr>poll_interval := Some b\<rparr>) b)"

definition setBatchId :: "BatchForm_state \<Rightarrow> string option \<Rightarrow> BatchForm_state" where
  "setBatchId st b = (if batchId st = b then st else batch_effect (st\<lparr>batchId := b\<rparr>))"

definition stopBatch :: "BatchForm_state \<Rightarrow> BatchForm_state" where
  "stopBatch st = (setBatchId st None)\<lparr>batchStatus := None, results := None\<rparr>"

definition remove_nth :: "nat \<Rightarrow> 'a list \<Rightarrow> 'a list" where
  "remove_nth k xs = take k xs @ drop (Suc k) xs"

text \<open>
  The events of the mounted form: \<^verbatim>\<open>submitBatch\<close> receiving its batch id, the Stop
  and Close buttons, the five-second interval firing, and any suspended \<^verbatim>\<open>pollStatus\<close>
  run resuming, in any order (\<open>k\<close> picks the run).
\<close>

datatype batch_event =
    SubmitResolved string
  | StopBatch
  | CloseResults
  | PollTick
  | StatusSettled nat "js_error + BatchStatusReply"
  | ResultsSettled nat "js_error + BatchResearchResult"

fun batch_step :: "BatchForm_state \<Rightarrow> batch_event \<Rightarrow> BatchForm_state" where
  "batch_step st (SubmitResolved b) = setBatchId st (Some b)"
| "batch_step st StopBatch = stopBatch st"
| "batch_step st CloseResults = st\<lparr>results := None\<rparr>"
| "batch_step st PollTick =
     (case poll_interval st of None \<Rightarrow> st | Some b \<Rightarrow> pollStatus_call st b)"
| "batch_step st (StatusSettled k reply) =
     (if k < length (awaiting_status st)
      then pollStatus_status_settled
             (st\<lparr>awaiting_status := remove_nth k (awaiting_status st)\<rparr>)
             (awaiting_status st ! k) reply
      else st)"
| "batch_step st (ResultsSettled k reply) =
     (if k < length (awaiting_results st)
      then pollStatus_results_settled
             (st\<lparr>awaiting_results := remove_nth k (awaiting_results st)\<rparr>)
             (awaiting_results st ! k) reply
      else st)"

definition batch_run :: "BatchForm_state \<Rightarrow> batch_event list \<Rightarrow> BatchForm_state" where
  "batch_run st evs = foldl batch_step st evs"

text \<open>
  A log in which every results fetch directly follows a status poll of the same batch
  that returned \<^verbatim>\<open>completed\<close>.
\<close>

definition fetch_after_completed :: "api_event list \<Rightarrow> bool" where
  "fetch_after_completed tr =
     list_all
       (\<lambda>i. case tr ! i of
               Call_getBatchResearchResults b \<Rightarrow>
                 0 < i \<and> tr ! (i - 1) = Returned_getBatchResearchStatus b ''completed''
             | _ \<Rightarrow> True)
       [0..<length tr]"

section \<open>JobPage (app/research/[jobId]/page.tsx)\<close>








section \<open>StatusDisplay (components/StatusDisplay.tsx, lines 21-65)\<close>




















section \<open>Results about the API client\<close>

lemma handleApiResponse_ok:
  "ok r \<Longrightarrow> handleApiResponse ns r = (case json r of None \<Rightarrow> Inl SyntaxError | Some v \<Rightarrow> Inr v)"
  by (simp add: handleApiResponse_def)

lemma handleApiResponse_not_ok_unparsed:
  "\<not> ok r \<Longrightarrow> json r = None \<Longrightarrow>
   handleApiResponse ns r =
     Inl (new_ApiError ns (JStr (default_message r)) (status r) (JStr ''UNKNOWN_ERROR'') JUndefined)"
  by (simp add: handleApiResponse_def)

lemma handleApiResponse_not_ok_parsed:
  assumes "\<not> ok r" and "json r = Some b"
  shows "handleApiResponse ns r =
           Inl (new_ApiError ns
                  (if truthy (prop_of b ''detail'') then prop_of b ''detail''
                   else if truthy (prop_of b ''message'') then prop_of b ''message''
                   else JStr (default_message r))
                  (status r)
                  (js_or (prop_of b ''code'') (JStr ''UNKNOWN_ERROR''))
                  (prop_of b ''details''))"
  using assms by (cases b) (simp_all add: handleApiResponse_def js_or_def)

lemma new_ApiError_cases:
  "(case ToString ns m of
      None \<Rightarrow> new_ApiError ns m s c d = TypeError
    | Some t \<Rightarrow> \<exists>e. new_ApiError ns m s c d = ApiError e \<and> api_status e = s \<and> message e = t)"
  by (simp add: new_ApiError_def split: option.splits)

text \<open>
  C6, as stated: \<^verbatim>\<open>handleApiResponse\<close> returns the parsed body if and only if
  \<^verbatim>\<open>response.ok\<close> holds, and the message of the \<^verbatim>\<open>ApiError\<close> is the body's
  \<^verbatim>\<open>detail\<close>. The first fails on an ok response whose body is not JSON (a 204 No
  Content, say): line 49 awaits \<^verbatim>\<open>response.json()\<close>, which rejects, and no value is
  returned although \<^verbatim>\<open>response.ok\<close> holds. The second fails when \<^verbatim>\<open>detail\<close> is not
  a string: for a validation error whose \<^verbatim>\<open>detail\<close> is a list holding one object the
  message is \<^verbatim>\<open>[object Object]\<close>.
\<close>

theorem C6_ok_without_json_rejects:
  "ok \<lparr>ok = True, status = 204, statusText = ''No Content'', json = None\<rparr> \<and>
   handleApiResponse (\<lambda>n. ''0'') \<lparr>ok = True, status = 204, statusText = ''No Content'', json = None\<rparr>
     = Inl SyntaxError \<and>
   handleApiResponse (\<lambda>n. ''0'')
     \<lparr>ok = False, status = 422, statusText = ''Unprocessable Entity'',
      json = Some (JObj [(''detail'', JArr [JObj [(''msg'', JStr ''field required'')]])])\<rparr>
     = Inl (ApiError \<lparr>message = ''[object Object]'', api_status = 422,
                       code = JStr ''UNKNOWN_ERROR'', details = JUndefined\<rparr>)"
  by (simp add: handleApiResponse_def new_ApiError_def js_or_def)

text \<open>
  C6, amended: \<^verbatim>\<open>handleApiResponse\<close> returns a value exactly when \<^verbatim>\<open>response.ok\<close>
  holds and the body parses as JSON, and the value is the parsed body; an ok response
  whose body does not parse is rejected with the parser's SyntaxError. For a response
  that is not ok it never returns a value. It throws an \<^verbatim>\<open>ApiError\<close> whose status is
  the HTTP status code and whose message is the string conversion of the body's
  \<^verbatim>\<open>detail\<close> when that is truthy, else of its \<^verbatim>\<open>message\<close> when that is truthy, else
  the default \<^verbatim>\<open>API Error: <status> <statusText>\<close> (also when the error body does not
  parse or is \<^verbatim>\<open>null\<close>); a \<^verbatim>\<open>detail\<close> that is a non-empty string is the message as
  it is. Only when the string conversion itself throws (the value is an object with a
  property \<^verbatim>\<open>toString\<close>, or an array holding one) is the error a TypeError instead.
\<close>

theorem C6_handleApiResponse_surfaces_errors:
  "(handleApiResponse ns r = Inr v \<longleftrightarrow> ok r \<and> json r = Some v) \<and>
   (ok r \<and> json r = None \<longrightarrow> handleApiResponse ns r = Inl SyntaxError) \<and>
   (\<not> ok r \<longrightarrow>
      (case ToString ns
              (case json r of
                 None \<Rightarrow> JStr (default_message r)
               | Some b \<Rightarrow>
                   if truthy (prop_of b ''detail'') then prop_of b ''detail''
                   else if truthy (prop_of b ''message'') then prop_of b ''message''
                   else JStr (default_message r)) of
         None \<Rightarrow> handleApiResponse ns r = Inl TypeError
       | Some m \<Rightarrow>
           (\<exists>e. handleApiResponse ns r = Inl (ApiError e) \<and> api_status e = status r \<and>
                message e = m))) \<and>
   (\<not> ok r \<and> json r = Some b \<and> prop_of b ''detail'' = JStr s \<and> s \<noteq> [] \<longrightarrow>
      (\<exists>e. handleApiResponse ns r = Inl (ApiError e) \<and> api_status e = status r \<and>
           message e = s))"
proof (intro conjI impI)
  show "handleApiResponse ns r = Inr v \<longleftrightarrow> ok r \<and> json r = Some v"
    by (auto simp: handleApiResponse_def Let_def split: option.splits prod.splits)
next
  assume "ok r \<and> json r = None"
  then show "handleApiResponse ns r = Inl SyntaxError"
    by (simp add: handleApiResponse_ok)
next
  assume bad: "\<not> ok r"
  define chosen where "chosen =
     (case json r of
        None \<Rightarrow> JStr (default_message r)
      | Some b \<Rightarrow>
          if truthy (prop_of b ''detail'') then prop_of b ''detail''
          else if truthy (prop_of b ''message'') then prop_of b ''message''
          else JStr (default_message r))"
  have "\<exists>c d. handleApiResponse ns r = Inl (new_ApiError ns chosen (status r) c d)"
  proof (cases "json r")
    case None
    with bad show ?thesis
      by (auto simp: chosen_def handleApiResponse_not_ok_unparsed)
  next
    case (Some b)
    with handleApiResponse_not_ok_parsed [OF bad Some, of ns] show ?thesis
      by (auto simp: chosen_def)
  qed
  then obtain c d where h: "handleApiResponse ns r = Inl (new_ApiError ns chosen (status r) c d)"
    by blast
  from new_ApiError_cases [of ns chosen "status r" c d] h
  have "(case ToString ns chosen of
           None \<Rightarrow> handleApiResponse ns r = Inl TypeError
         | Some m \<Rightarrow>
             (\<exists>e. handleApiResponse ns r = Inl (ApiError e) \<and> api_status e = status r \<and>
                  message e = m))"
    by (simp split: option.splits)
  then show "(case ToString ns
              (case json r of
                 None \<Rightarrow> JStr (default_message r)
               | Some b \<Rightarrow>
                   if truthy (prop_of b ''detail'') then prop_of b ''detail''
                   else if truthy (prop_of b ''message'') then prop_of b ''message''
                   else JStr (default_message r)) of
         None \<Rightarrow> handleApiResponse ns r = Inl TypeError
       | Some m \<Rightarrow>
           (\<exists>e. handleApiResponse ns r = Inl (ApiError e) \<and> api_status e = status r \<and>
                message e = m))"
    by (simp only: chosen_def)
next
  assume a: "\<not> ok r \<and> json r = Some b \<and> prop_of b ''detail'' = JStr s \<and> s \<noteq> []"
  then have bad: "\<not> ok r" and j: "json r = Some b" and d: "prop_of b ''detail'' = JStr s"
    and s: "s \<noteq> []" by simp_all
  from handleApiResponse_not_ok_parsed [OF bad j, of ns] d s
  have "handleApiResponse ns r =
          Inl (new_ApiError ns (JStr s) (status r)
                 (js_or (prop_of b ''code'') (JStr ''UNKNOWN_ERROR'')) (prop_of b ''details''))"
    by simp
  then show "\<exists>e. handleApiResponse ns r = Inl (ApiError e) \<and> api_status e = status r \<and>
           message e = s"
    by (simp add: new_ApiError_def)
qed

theorem C6_handleApiResponse_surfaces_errors_witness:
  "\<not> ok \<lparr>ok = False, status = 404, statusText = ''Not Found'',
            json = Some (JObj [(''message'', JStr ''gone''), (''detail'', JStr ''Job not found'')])\<rparr> \<and>
   (\<exists>e. handleApiResponse (\<lambda>n. ''0'') \<lparr>ok = False, status = 404, statusText = ''Not Found'',
            json = Some (JObj [(''message'', JStr ''gone''), (''detail'', JStr ''Job not found'')])\<rparr>
          = Inl (ApiError e) \<and> api_status e = 404 \<and> message e = ''Job not found'')"
  using C6_handleApiResponse_surfaces_errors
    [of "\<lambda>n. ''0''"
        "\<lparr>ok = False, status = 404, statusText = ''Not Found'',
          json = Some (JObj [(''message'', JStr ''gone''), (''detail'', JStr ''Job not found'')])\<rparr>"
        JNull "JObj [(''message'', JStr ''gone''), (''detail'', JStr ''Job not found'')]"
        "''Job not found''"]
  by simp

section \<open>Results about binary64 rounding\<close>

text \<open>
  \<open>ilog2\<close> is the binary exponent, rounding keeps the sign, and rounding does not
  cross a multiple of the unit in the last place; so what is at most 1 or at most 100
  before rounding is so after it.
\<close>

lemma rne_of_int: "rne (of_int n) = n"
  by (simp add: rne_def)

lemma rne_le_int: "x \<le> of_int n \<Longrightarrow> rne x \<le> n"
proof -
  assume le: "x \<le> of_int n"
  then have f: "\<lfloor>x\<rfloor> \<le> n" by (simp add: floor_le_iff)
  show ?thesis
  proof (cases "\<lfloor>x\<rfloor> = n")
    case True
    with le have "x = of_int n" using of_int_floor_le [of x] by linarith
    then show ?thesis by (simp add: rne_of_int)
  next
    case False
    with f have "\<lfloor>x\<rfloor> + 1 \<le> n" by simp
    moreover have "rne x \<le> \<lfloor>x\<rfloor> + 1" by (simp add: rne_def Let_def)
    ultimately show ?thesis by linarith
  qed
qed

lemma rne_nonneg: "0 \<le> x \<Longrightarrow> 0 \<le> rne x"
  by (auto simp: rne_def Let_def)

lemma bitlen_pos: "0 < a \<Longrightarrow> 1 \<le> bitlen a"
  using bitlen_bounds [of a] bitlen_nonneg [of a]
  by (cases "bitlen a = 0") auto

lemma bitlen_bounds_rat:
  assumes "0 < a"
  shows "(2::rat) powi (bitlen a - 1) \<le> of_int a" and "of_int a < (2::rat) powi bitlen a"
proof -
  from bitlen_bounds [OF assms]
  have lo: "2 ^ nat (bitlen a - 1) \<le> a" and hi: "a < 2 ^ nat (bitlen a)" by simp_all
  from bitlen_pos [OF assms] have e1: "bitlen a - 1 = int (nat (bitlen a - 1))"
    and e2: "bitlen a = int (nat (bitlen a))" by simp_all
  from lo have "(of_int (2 ^ nat (bitlen a - 1)) :: rat) \<le> of_int a"
    by (simp only: of_int_le_iff)
  then have "(2::rat) ^ nat (bitlen a - 1) \<le> of_int a" by simp
  then show "(2::rat) powi (bitlen a - 1) \<le> of_int a"
    by (subst e1) (simp only: power_int_of_nat)
  from hi have "(of_int a :: rat) < of_int (2 ^ nat (bitlen a))"
    by (simp only: of_int_less_iff)
  then have "(of_int a :: rat) < 2 ^ nat (bitlen a)" by simp
  then show "of_int a < (2::rat) powi bitlen a"
    by (subst e2) (simp only: power_int_of_nat)
qed

lemma ilog2_bounds:
  assumes "0 < x"
  shows "2 powi ilog2 x \<le> x" and "x < 2 powi (ilog2 x + 1)"
proof -
  obtain a b where q: "quotient_of x = (a, b)" by (cases "quotient_of x")
  then have b: "0 < b" and x: "x = of_int a / of_int b"
    by (simp_all add: quotient_of_denom_pos quotient_of_div)
  with assms have a: "0 < a" by (simp add: zero_less_divide_iff)
  define k where "k = bitlen a - bitlen b"
  have il: "ilog2 x = (if 2 powi k \<le> x then k else k - 1)"
    by (simp add: ilog2_def q k_def Let_def)
  have bpos: "(0::rat) < of_int b" using b by simp
  have lo: "(2::rat) powi (k - 1) \<le> x"
  proof -
    have "(2::rat) powi (k - 1) = 2 powi (bitlen a - 1) / 2 powi bitlen b"
      by (simp add: k_def power_int_diff)
    also have "\<dots> \<le> of_int a / 2 powi bitlen b"
      using bitlen_bounds_rat(1) [OF a] by (simp add: divide_right_mono)
    also have "\<dots> \<le> of_int a / of_int b"
      using bitlen_bounds_rat(2) [OF b] a bpos by (simp add: frac_le)
    finally show ?thesis by (simp add: x)
  qed
  have hi: "x < (2::rat) powi (k + 1)"
  proof -
    have "x = of_int a / of_int b" by (rule x)
    also have "\<dots> < 2 powi bitlen a / of_int b"
      using bitlen_bounds_rat(2) [OF a] bpos by (simp add: divide_strict_right_mono)
    also have "\<dots> \<le> 2 powi bitlen a / 2 powi (bitlen b - 1)"
      using bitlen_bounds_rat(1) [OF b] by (simp add: frac_le)
    also have "\<dots> = 2 powi (k + 1)"
    proof -
      have e: "bitlen a - (bitlen b - 1) = k + 1" by (simp add: k_def)
      have "(2::rat) powi bitlen a / 2 powi (bitlen b - 1) = 2 powi (bitlen a - (bitlen b - 1))"
        by (rule power_int_diff [symmetric]) simp
      then show ?thesis by (simp only: e)
    qed
    finally show ?thesis .
  qed
  from lo il show "2 powi ilog2 x \<le> x" by simp
  from hi il show "x < 2 powi (ilog2 x + 1)" by (auto simp: not_le)
qed

lemma ilog2_le:
  assumes "0 < x" and "x < 2 powi n"
  shows "ilog2 x < n"
proof (rule ccontr)
  assume "\<not> ilog2 x < n"
  then have "n \<le> ilog2 x" by simp
  then have "(2::rat) powi n \<le> 2 powi ilog2 x" by (simp add: power_int_increasing)
  with ilog2_bounds(1) [OF assms(1)] assms(2) show False by linarith
qed

lemma round64_nonneg: "0 \<le> x \<Longrightarrow> 0 \<le> round64 x"
  by (simp add: round64_def rne_nonneg)

lemma round64_le_multiple:
  assumes x: "0 \<le> x" and le: "x \<le> of_int m * 2 powi j" and j: "ilog2 x - 52 \<le> j"
  shows "round64 x \<le> of_int m * 2 powi j"
proof (cases "x = 0")
  case True
  with le show ?thesis by (simp add: round64_def)
next
  case False
  with x have pos: "0 < x" by simp
  define u :: rat where "u = 2 powi (ilog2 x - 52)"
  have u: "0 < u" by (simp add: u_def)
  have mult: "(2::rat) powi j = of_int (2 ^ nat (j - (ilog2 x - 52))) * u"
  proof -
    have "(2::rat) powi j = 2 powi ((j - (ilog2 x - 52)) + (ilog2 x - 52))" by simp
    also have "\<dots> = 2 powi (j - (ilog2 x - 52)) * 2 powi (ilog2 x - 52)"
      by (rule power_int_add) simp
    also have "(2::rat) powi (j - (ilog2 x - 52)) = 2 ^ nat (j - (ilog2 x - 52))"
      using j by (simp add: power_int_def)
    finally show ?thesis by (simp add: u_def)
  qed
  have "x / u \<le> of_int (m * 2 ^ nat (j - (ilog2 x - 52)))"
    using le u by (simp add: mult divide_le_eq mult.assoc)
  then have "rne (x / u) \<le> m * 2 ^ nat (j - (ilog2 x - 52))"
    by (rule rne_le_int)
  then have "(of_int (rne (x / u)) :: rat) \<le> of_int (m * 2 ^ nat (j - (ilog2 x - 52)))"
    by (simp only: of_int_le_iff)
  then have "of_int (rne (x / u)) * u \<le> of_int (m * 2 ^ nat (j - (ilog2 x - 52))) * u"
    using u by (simp add: mult_right_mono)
  also have "\<dots> = of_int m * 2 powi j"
    by (simp add: mult mult.assoc)
  finally show ?thesis
    using pos by (simp add: round64_def u_def)
qed

lemma round64_le_1: "0 \<le> x \<Longrightarrow> x \<le> 1 \<Longrightarrow> round64 x \<le> 1"
proof -
  assume x: "0 \<le> x" and le: "x \<le> 1"
  show ?thesis
  proof (cases "x = 0")
    case True
    then show ?thesis by (simp add: round64_def)
  next
    case False
    with x le have "0 < x" and "x < 2 powi 1" by simp_all
    then have "ilog2 x < 1" by (rule ilog2_le)
    then have "ilog2 x - 52 \<le> 0" by simp
    from round64_le_multiple [of x 1 0, OF x _ this] le show ?thesis by simp
  qed
qed

lemma round64_le_100: "0 \<le> x \<Longrightarrow> x \<le> 100 \<Longrightarrow> round64 x \<le> 100"
proof -
  assume x: "0 \<le> x" and le: "x \<le> 100"
  show ?thesis
  proof (cases "x = 0")
    case True
    then show ?thesis by (simp add: round64_def)
  next
    case False
    with x le have "0 < x" and "x < 2 powi 7" by simp_all
    then have "ilog2 x < 7" by (rule ilog2_le)
    then have "ilog2 x - 52 \<le> 2" by simp
    from round64_le_multiple [of x 25 2, OF x _ this] le show ?thesis by simp
  qed
qed

lemma rne_error: "\<bar>of_int (rne y) - y\<bar> \<le> 1 / 2"
proof -
  have "of_int \<lfloor>y\<rfloor> \<le> y" and "y < of_int \<lfloor>y\<rfloor> + 1" by linarith+
  then show ?thesis
    by (auto simp: rne_def Let_def abs_le_iff)
qed

lemma round64_error:
  assumes "0 < x"
  shows "\<bar>round64 x - x\<bar> \<le> 2 powi (ilog2 x - 53)"
proof -
  define u :: rat where "u = 2 powi (ilog2 x - 52)"
  have u: "0 < u" by (simp add: u_def)
  have half: "u / 2 = 2 powi (ilog2 x - 53)"
  proof -
    have "ilog2 x - 53 = (ilog2 x - 52) - 1" by simp
    then have "(2::rat) powi (ilog2 x - 53) = 2 powi (ilog2 x - 52) / 2 powi 1"
      by (simp only: power_int_diff [of 2, symmetric, OF disjI1])
    then show ?thesis by (simp add: u_def)
  qed
  have r: "round64 x = of_int (rne (x / u)) * u"
    using assms by (simp add: round64_def u_def)
  have "round64 x - x = (of_int (rne (x / u)) - x / u) * u"
    using u by (simp add: r algebra_simps)
  then have "\<bar>round64 x - x\<bar> = \<bar>of_int (rne (x / u)) - x / u\<bar> * u"
    using u by (simp add: abs_mult)
  also have "\<dots> \<le> 1 / 2 * u"
    using rne_error [of "x / u"] u by (intro mult_right_mono) simp_all
  finally show ?thesis by (simp add: half [symmetric])
qed

lemma round64_error_le1:
  assumes "0 \<le> x" and "x \<le> 1"
  shows "\<bar>round64 x - x\<bar> \<le> 1 / 2 ^ 53"
proof (cases "x = 0")
  case True
  then show ?thesis by (simp add: round64_def)
next
  case False
  with assms have pos: "0 < x" and "x < 2 powi 1" by simp_all
  then have "ilog2 x < 1" by (rule ilog2_le)
  then have "ilog2 x - 53 \<le> - 53" by simp
  then have "(2::rat) powi (ilog2 x - 53) \<le> 2 powi (- 53)"
    by (intro power_int_increasing) simp_all
  also have "(2::rat) powi (- 53) = 1 / 2 ^ 53"
    by (simp add: power_int_minus inverse_eq_divide)
  finally show ?thesis using round64_error [OF pos] by linarith
qed

lemma round64_error_le100:
  assumes "0 \<le> y" and "y \<le> 100"
  shows "\<bar>round64 y - y\<bar> \<le> 1 / 2 ^ 47"
proof (cases "y = 0")
  case True
  then show ?thesis by (simp add: round64_def)
next
  case False
  with assms have pos: "0 < y" and "y < 2 powi 7" by simp_all
  then have "ilog2 y < 7" by (rule ilog2_le)
  then have "ilog2 y - 53 \<le> - 47" by simp
  then have "(2::rat) powi (ilog2 y - 53) \<le> 2 powi (- 47)"
    by (intro power_int_increasing) simp_all
  also have "(2::rat) powi (- 47) = 1 / 2 ^ 47"
    by (simp add: power_int_minus inverse_eq_divide)
  finally show ?thesis using round64_error [OF pos] by linarith
qed

lemma percentage_close:
  assumes x0: "0 \<le> x" and x1: "x \<le> 1"
  shows "\<bar>round64 (round64 x * 100) - 100 * x\<bar> \<le> 1 / 2 ^ 45"
proof -
  have q0: "0 \<le> round64 x" using x0 by (rule round64_nonneg)
  have q1: "round64 x \<le> 1" using x0 x1 by (rule round64_le_1)
  from q0 q1 have y0: "0 \<le> round64 x * 100" and y1: "round64 x * 100 \<le> 100" by linarith+
  have e1: "\<bar>round64 x - x\<bar> \<le> 1 / 2 ^ 53" using x0 x1 by (rule round64_error_le1)
  have e2: "\<bar>round64 (round64 x * 100) - round64 x * 100\<bar> \<le> 1 / 2 ^ 47"
    using y0 y1 by (rule round64_error_le100)
  have "round64 (round64 x * 100) - 100 * x
          = (round64 (round64 x * 100) - round64 x * 100) + 100 * (round64 x - x)"
    by simp
  then have "\<bar>round64 (round64 x * 100) - 100 * x\<bar>
          \<le> \<bar>round64 (round64 x * 100) - round64 x * 100\<bar> + \<bar>100 * (round64 x - x)\<bar>"
    by (simp only: abs_triangle_ineq)
  moreover have "\<bar>100 * (round64 x - x)\<bar> = 100 * \<bar>round64 x - x\<bar>"
    by (simp only: abs_mult)
  ultimately have "\<bar>round64 (round64 x * 100) - 100 * x\<bar> \<le> 1 / 2 ^ 47 + 100 * (1 / 2 ^ 53)"
    using e1 e2 by linarith
  also have "\<dots> \<le> 1 / 2 ^ 45" by simp
  finally show ?thesis .
qed

section \<open>Results about ResearchProgress\<close>

lemma highConfidenceSources_le_totalSources: "highConfidenceSources r \<le> totalSources r"
  by (simp add: highConfidenceSources_def totalSources_def split: option.splits)

lemma progressPercentage_positive_total:
  assumes "0 < totalSources r"
  shows "progressPercentage r =
           Some (round64 (round64 (of_nat (highConfidenceSources r) / of_nat (totalSources r)) * 100))"
  using assms by (simp add: progressPercentage_def js_div_def js_mult_def)

text \<open>
  C9, as stated: with references the percentage equals 100 times the number of
  references with a confidence score above 0.8, divided by the number of references.
  In binary64 it does not: with 7 such references out of 25 the quotient 7/25 is
  rounded, and its product with 100 is 28.000000000000004 (28 + 2^-48), not 28.
\<close>

theorem C9_percentage_is_rounded:
  "progressPercentage \<lparr>result_topic = ''t'', content = ''c'',
      references = Some
        (replicate 7 \<lparr>title = ''a'', url = ''u'', accessed_date = ''d'', confidence_score = Some (7 / 8)\<rparr> @
         replicate 18 \<lparr>title = ''b'', url = ''u'', accessed_date = ''d'', confidence_score = Some (1 / 2)\<rparr>),
      word_count = 1, result_confidence_score = 1\<rparr> = Some (28 + 1 / 2 ^ 48) \<and>
   (100 * 7 / 25 :: rat) = 28"
  by code_simp

text \<open>
  C9, amended: for every research result the research-quality percentage is a number
  (the division is reached only with a positive divisor) between 0 and 100; it is 0
  when the references are absent or empty, and otherwise it is the binary64 value of
  (high / total) * 100, the quotient rounded and then its product with 100 rounded,
  which is within 2^-45 of 100 * high / total, where high is the number of references
  whose confidence score is above the binary64 number 0.8 and total the number of
  references.
\<close>

theorem C9_progressPercentage_total_and_bounded:
  "(\<exists>p. progressPercentage r = Some p \<and> 0 \<le> p \<and> p \<le> 100) \<and>
   (references r = None \<longrightarrow> progressPercentage r = Some 0) \<and>
   (references r = Some [] \<longrightarrow> progressPercentage r = Some 0) \<and>
   (\<forall>refs. references r = Some refs \<and> refs \<noteq> [] \<longrightarrow>
      progressPercentage r =
        Some (round64
               (round64
                  (of_nat (length (filter (\<lambda>ref. case confidence_score ref of
                                                    None \<Rightarrow> False
                                                  | Some c \<Rightarrow> c > round64 (8 / 10)) refs))
                   / of_nat (length refs))
                * 100))) \<and>
   (\<forall>refs. references r = Some refs \<and> refs \<noteq> [] \<longrightarrow>
      (\<exists>p. progressPercentage r = Some p \<and>
           \<bar>p - 100 * of_nat (length (filter (\<lambda>ref. case confidence_score ref of
                                                          None \<Rightarrow> False
                                                        | Some c \<Rightarrow> c > round64 (8 / 10)) refs))
                     / of_nat (length refs)\<bar> \<le> 1 / 2 ^ 45))"
proof -
  have value_of: "progressPercentage r =
        Some (round64
               (round64
                  (of_nat (length (filter (\<lambda>ref. case confidence_score ref of
                                                    None \<Rightarrow> False
                                                  | Some c \<Rightarrow> c > round64 (8 / 10)) refs))
                   / of_nat (length refs))
                * 100))"
    if a: "references r = Some refs \<and> refs \<noteq> []" for refs
  proof -
    have "filter (\<lambda>ref. or_zero (confidence_score ref) > round64 (8 / 10)) refs
          = filter (\<lambda>ref. case confidence_score ref of None \<Rightarrow> False | Some c \<Rightarrow> c > round64 (8 / 10)) refs"
    proof (rule filter_cong [OF refl])
      fix ref :: Reference
      have "0 \<le> round64 (8 / 10)" by (rule round64_nonneg) simp
      then show "(or_zero (confidence_score ref) > round64 (8 / 10)) =
            (case confidence_score ref of None \<Rightarrow> False | Some c \<Rightarrow> c > round64 (8 / 10))"
        by (auto simp: or_zero_def split: option.splits)
    qed
    with a have hi: "highConfidenceSources r =
        length (filter (\<lambda>ref. case confidence_score ref of None \<Rightarrow> False | Some c \<Rightarrow> c > round64 (8 / 10)) refs)"
      by (simp only: highConfidenceSources_def option.case)
    from a have tot: "totalSources r = length refs" and pos: "0 < totalSources r"
      by (simp_all add: totalSources_def)
    from progressPercentage_positive_total [OF pos] show ?thesis
      by (simp only: hi tot)
  qed
  show ?thesis
proof (intro conjI allI impI)
  show "\<exists>p. progressPercentage r = Some p \<and> 0 \<le> p \<and> p \<le> 100"
  proof (cases "totalSources r > 0")
    case False
    then show ?thesis by (simp add: progressPercentage_def)
  next
    case True
    define x :: rat where "x = of_nat (highConfidenceSources r) / of_nat (totalSources r)"
    have "(of_nat (highConfidenceSources r) :: rat) \<le> of_nat (totalSources r)"
      using highConfidenceSources_le_totalSources [of r] by (simp only: of_nat_le_iff)
    then have x1: "x \<le> 1"
      using True by (simp add: x_def divide_le_eq)
    have x0: "0 \<le> x"
      by (simp add: x_def)
    have q0: "0 \<le> round64 x" using x0 by (rule round64_nonneg)
    have q1: "round64 x \<le> 1" using x0 x1 by (rule round64_le_1)
    from q0 q1 have y0: "0 \<le> round64 x * 100" and y1: "round64 x * 100 \<le> 100"
      by linarith+
    have "progressPercentage r = Some (round64 (round64 x * 100))"
      unfolding x_def by (rule progressPercentage_positive_total [OF True])
    moreover have "0 \<le> round64 (round64 x * 100)" using y0 by (rule round64_nonneg)
    moreover have "round64 (round64 x * 100) \<le> 100" using y0 y1 by (rule round64_le_100)
    ultimately show ?thesis by blast
  qed
next
  assume "references r = None"
  then show "progressPercentage r = Some 0"
    by (simp add: progressPercentage_def totalSources_def)
next
  assume "references r = Some []"
  then show "progressPercentage r = Some 0"
    by (simp add: progressPercentage_def totalSources_def)
next
  fix refs assume a: "references r = Some refs \<and> refs \<noteq> []"
  then show "progressPercentage r =
        Some (round64
               (round64
                  (of_nat (length (filter (\<lambda>ref. case confidence_score ref of
                                                    None \<Rightarrow> False
                                                  | Some c \<Rightarrow> c > round64 (8 / 10)) refs))
                   / of_nat (length refs))
                * 100))"
    by (rule value_of)
next
  fix refs assume a: "references r = Some refs \<and> refs \<noteq> []"
  define h where "h = length (filter (\<lambda>ref. case confidence_score ref of
                                                    None \<Rightarrow> False
                                                  | Some c \<Rightarrow> c > round64 (8 / 10)) refs)"
  define x :: rat where "x = of_nat h / of_nat (length refs)"
  have "h \<le> length refs" by (simp add: h_def)
  then have "(of_nat h :: rat) \<le> of_nat (length refs)" by (simp only: of_nat_le_iff)
  moreover from a have "(0::rat) < of_nat (length refs)" by simp
  ultimately have x1: "x \<le> 1" by (simp add: x_def divide_le_eq)
  have x0: "0 \<le> x" by (simp add: x_def)
  from value_of [OF a] have "progressPercentage r = Some (round64 (round64 x * 100))"
    by (simp only: x_def h_def)
  moreover from percentage_close [OF x0 x1]
  have "\<bar>round64 (round64 x * 100) - 100 * of_nat h / of_nat (length refs)\<bar> \<le> 1 / 2 ^ 45"
    by (simp add: x_def)
  ultimately show "\<exists>p. progressPercentage r = Some p \<and>
           \<bar>p - 100 * of_nat (length (filter (\<lambda>ref. case confidence_score ref of
                                                          None \<Rightarrow> False
                                                        | Some c \<Rightarrow> c > round64 (8 / 10)) refs))
                     / of_nat (length refs)\<bar> \<le> 1 / 2 ^ 45"
    unfolding h_def by blast
qed
qed

theorem C9_progressPercentage_total_and_bounded_witness:
  "progressPercentage \<lparr>result_topic = ''t'', content = ''c'',
      references = Some
        [\<lparr>title = ''a'', url = ''u'', accessed_date = ''d'', confidence_score = Some (7 / 8)\<rparr>,
         \<lparr>title = ''b'', url = ''u'', accessed_date = ''d'', confidence_score = Some (round64 (8 / 10))\<rparr>,
         \<lparr>title = ''c'', url = ''u'', accessed_date = ''d'', confidence_score = None\<rparr>,
         \<lparr>title = ''d'', url = ''u'', accessed_date = ''d'', confidence_score = Some (1 / 4)\<rparr>],
      word_count = 1, result_confidence_score = 1\<rparr> = Some 25"
proof -
  let ?r = "\<lparr>result_topic = ''t'', content = ''c'',
      references = Some
        [\<lparr>title = ''a'', url = ''u'', accessed_date = ''d'', confidence_score = Some (7 / 8)\<rparr>,
         \<lparr>title = ''b'', url = ''u'', accessed_date = ''d'', confidence_score = Some (round64 (8 / 10))\<rparr>,
         \<lparr>title = ''c'', url = ''u'', accessed_date = ''d'', confidence_score = None\<rparr>,
         \<lparr>title = ''d'', url = ''u'', accessed_date = ''d'', confidence_score = Some (1 / 4)\<rparr>],
      word_count = 1, result_confidence_score = 1\<rparr>"
  have v: "round64 (round64 (of_nat (length (filter (\<lambda>ref. case confidence_score ref of
                                                    None \<Rightarrow> False
                                                  | Some c \<Rightarrow> c > round64 (8 / 10))
        [\<lparr>title = ''a'', url = ''u'', accessed_date = ''d'', confidence_score = Some (7 / 8)\<rparr>,
         \<lparr>title = ''b'', url = ''u'', accessed_date = ''d'', confidence_score = Some (round64 (8 / 10))\<rparr>,
         \<lparr>title = ''c'', url = ''u'', accessed_date = ''d'', confidence_score = None\<rparr>,
         \<lparr>title = ''d'', url = ''u'', accessed_date = ''d'', confidence_score = Some (1 / 4)\<rparr>]))
       / of_nat (length
        [\<lparr>title = ''a'', url = ''u'', accessed_date = ''d'', confidence_score = Some (7 / 8)\<rparr>,
         \<lparr>title = ''b'', url = ''u'', accessed_date = ''d'', confidence_score = Some (round64 (8 / 10))\<rparr>,
         \<lparr>title = ''c'', url = ''u'', accessed_date = ''d'', confidence_score = None\<rparr>,
         \<lparr>title = ''d'', url = ''u'', accessed_date = ''d'', confidence_score = Some (1 / 4)\<rparr>])) * 100)
       = (25 :: rat)"
    by code_simp
  from C9_progressPercentage_total_and_bounded [of ?r]
  have "progressPercentage ?r = Some (round64 (round64 (of_nat (length (filter (\<lambda>ref. case confidence_score ref of
                                                    None \<Rightarrow> False
                                                  | Some c \<Rightarrow> c > round64 (8 / 10))
        [\<lparr>title = ''a'', url = ''u'', accessed_date = ''d'', confidence_score = Some (7 / 8)\<rparr>,
         \<lparr>title = ''b'', url = ''u'', accessed_date = ''d'', confidence_score = Some (round64 (8 / 10))\<rparr>,
         \<lparr>title = ''c'', url = ''u'', accessed_date = ''d'', confidence_score = None\<rparr>,
         \<lparr>title = ''d'', url = ''u'', accessed_date = ''d'', confidence_score = Some (1 / 4)\<rparr>]))
       / of_nat (length
        [\<lparr>title = ''a'', url = ''u'', accessed_date = ''d'', confidence_score = Some (7 / 8)\<rparr>,
         \<lparr>title = ''b'', url = ''u'', accessed_date = ''d'', confidence_score = Some (round64 (8 / 10))\<rparr>,
         \<lparr>title = ''c'', url = ''u'', accessed_date = ''d'', confidence_score = None\<rparr>,
         \<lparr>title = ''d'', url = ''u'', accessed_date = ''d'', confidence_score = Some (1 / 4)\<rparr>])) * 100))"
    by simp
  then show ?thesis by (simp only: v)
qed

section \<open>Results about batch aggregation\<close>

lemma count_status_Cons:
  "count_status s (j # members) = (if spec_job_status j = s then 1 else 0) + count_status s members"
  by (simp add: count_status_def)

lemma terminal_counts_partition:
  "list_all (\<lambda>j. terminal (spec_job_status j)) members \<Longrightarrow>
   count_status Completed members + count_status Failed members + count_status Cancelled members
     = length members"
proof (induction members)
  case Nil
  show ?case by (simp add: count_status_def)
next
  case (Cons j members)
  then have t: "terminal (spec_job_status j)"
    and rest: "count_status Completed members + count_status Failed members
                 + count_status Cancelled members = length members"
    by simp_all
  from t rest show ?case
    by (cases "spec_job_status j") (simp_all add: count_status_Cons)
qed

text \<open>
  C3: for every batch with N member jobs, all of them terminal, the aggregate result
  partitions the members into three outcome buckets whose counts sum to N:
  completed_count + failed_count + cancelled_count = N (and the batch is flagged
  completed).
\<close>

theorem C3_aggregate_counts_sum_to_N:
  assumes "list_all (\<lambda>j. terminal (spec_job_status j)) members"
  shows "completed_count (aggregate members) + failed_count (aggregate members)
           + cancelled_count (aggregate members) = length members \<and>
         batch_completed (aggregate members)"
  using assms terminal_counts_partition [OF assms] by (simp add: aggregate_def)

theorem C3_aggregate_counts_sum_to_N_witness:
  "list_all (\<lambda>j. terminal (spec_job_status j))
     [\<lparr>spec_id = ''A'', spec_job_status = Completed\<rparr>, \<lparr>spec_id = ''B'', spec_job_status = Failed\<rparr>,
      \<lparr>spec_id = ''C'', spec_job_status = Cancelled\<rparr>] \<and>
   completed_count (aggregate
     [\<lparr>spec_id = ''A'', spec_job_status = Completed\<rparr>, \<lparr>spec_id = ''B'', spec_job_status = Failed\<rparr>,
      \<lparr>spec_id = ''C'', spec_job_status = Cancelled\<rparr>]) = 1 \<and>
   failed_count (aggregate
     [\<lparr>spec_id = ''A'', spec_job_status = Completed\<rparr>, \<lparr>spec_id = ''B'', spec_job_status = Failed\<rparr>,
      \<lparr>spec_id = ''C'', spec_job_status = Cancelled\<rparr>]) = 1 \<and>
   cancelled_count (aggregate
     [\<lparr>spec_id = ''A'', spec_job_status = Completed\<rparr>, \<lparr>spec_id = ''B'', spec_job_status = Failed\<rparr>,
      \<lparr>spec_id = ''C'', spec_job_status = Cancelled\<rparr>]) = 1"
proof -
  let ?ms = "[\<lparr>spec_id = ''A'', spec_job_status = Completed\<rparr>, \<lparr>spec_id = ''B'', spec_job_status = Failed\<rparr>,
      \<lparr>spec_id = ''C'', spec_job_status = Cancelled\<rparr>]"
  have t: "list_all (\<lambda>j. terminal (spec_job_status j)) ?ms" by simp
  have c: "completed_count (aggregate ?ms) = 1" and f: "failed_count (aggregate ?ms) = 1"
    by (simp_all add: aggregate_def count_status_def)
  from C3_aggregate_counts_sum_to_N [OF t] c f
  have "cancelled_count (aggregate ?ms) = 1" by simp
  with t c f show ?thesis by blast
qed

section \<open>Results about the job lifecycle\<close>

lemma spec_status_literal_five:
  "spec_status_literal s \<in> {''queued'', ''in_progress'', ''completed'', ''failed'', ''cancelled''}"
  by (cases s) simp_all

lemma status_query_literal:
  "status_query store job = Inr r \<Longrightarrow>
   reply_status r \<in> {''queued'', ''in_progress'', ''completed'', ''failed'', ''cancelled''}"
proof -
  assume "status_query store job = Inr r"
  then obtain s where "reply_status r = spec_status_literal s"
    by (auto simp: status_query_def split: sum.splits)
  then show ?thesis by (simp only: spec_status_literal_five)
qed

lemma get_job_put_job:
  "get_job store job = Inr j \<Longrightarrow> spec_id j' = job \<Longrightarrow> get_job (put_job store j') job = Inr j'"
proof (induction store)
  case Nil
  then show ?case by (simp add: get_job_def)
next
  case (Cons a store)
  then show ?case
    by (cases "spec_id a = job") (simp_all add: get_job_def put_job_def split: option.splits)
qed

lemma get_job_id: "get_job store job = Inr j \<Longrightarrow> spec_id j = job"
  by (auto simp: get_job_def split: option.splits dest: find_Some_iff [THEN iffD1])

lemma submitted_job_statuses:
  "status_query (lifecycle_run (snd (submit [])) []) (fst (submit [])) =
     Inr \<lparr>reply_status = ''queued'', reply_progress = 0\<rparr>"
  "status_query (lifecycle_run (snd (submit [])) [Dispatch ''0'']) (fst (submit [])) =
     Inr \<lparr>reply_status = ''in_progress'', reply_progress = 0\<rparr>"
  "status_query (lifecycle_run (snd (submit [])) [Dispatch ''0'', Succeed ''0'']) (fst (submit [])) =
     Inr \<lparr>reply_status = ''completed'', reply_progress = 0\<rparr>"
  "status_query (lifecycle_run (snd (submit [])) [Dispatch ''0'', Fail ''0'']) (fst (submit [])) =
     Inr \<lparr>reply_status = ''failed'', reply_progress = 0\<rparr>"
  "status_query (lifecycle_run (snd (submit [])) [Cancel ''0'']) (fst (submit [])) =
     Inr \<lparr>reply_status = ''cancelled'', reply_progress = 0\<rparr>"
  by (simp_all add: submit_def show_nat.simps digit_char_def lifecycle_run_def status_query_def
        get_job_def put_job_def dispatch_def succeed_def fail_def finish_def cancel_def
        cancel_job_def keep_on_error_def)

text \<open>
  C2: a job's status ranges over exactly the five values queued, in_progress,
  completed, failed and cancelled. The statuses that the status query reports for a
  submitted job, over all sequences of lifecycle operations, are exactly these five:
  each is reached, and no other is; submit answers with queued; and the five are
  distinct.
\<close>

theorem C2_job_status_five_values:
  "{reply_status r | r ops.
      status_query (lifecycle_run (snd (submit [])) ops) (fst (submit [])) = Inr r} =
     {''queued'', ''in_progress'', ''completed'', ''failed'', ''cancelled''} \<and>
   submit_status (fst (submit_job store)) = ''queued'' \<and>
   (status_query store job = Inr r \<longrightarrow>
      reply_status r \<in> {''queued'', ''in_progress'', ''completed'', ''failed'', ''cancelled''}) \<and>
   card {''queued'', ''in_progress'', ''completed'', ''failed'', ''cancelled''} = 5"
proof (intro conjI impI)
  show "{reply_status r | r ops.
      status_query (lifecycle_run (snd (submit [])) ops) (fst (submit [])) = Inr r} =
     {''queued'', ''in_progress'', ''completed'', ''failed'', ''cancelled''}" (is "?L = ?R")
  proof (rule set_eqI, rule iffI)
    fix u assume "u \<in> ?L"
    then show "u \<in> ?R" by (auto dest: status_query_literal)
  next
    fix u assume "u \<in> ?R"
    then consider "u = ''queued''" | "u = ''in_progress''" | "u = ''completed''"
      | "u = ''failed''" | "u = ''cancelled''" by auto
    then show "u \<in> ?L"
    proof cases
      case 1
      with submitted_job_statuses(1) show ?thesis by force
    next
      case 2
      with submitted_job_statuses(2) show ?thesis by force
    next
      case 3
      with submitted_job_statuses(3) show ?thesis by force
    next
      case 4
      with submitted_job_statuses(4) show ?thesis by force
    next
      case 5
      with submitted_job_statuses(5) show ?thesis by force
    qed
  qed
  show "submit_status (fst (submit_job store)) = ''queued''"
    by (simp add: submit_job_def)
  show "card {''queued'', ''in_progress'', ''completed'', ''failed'', ''cancelled''} = 5"
    by simp
next
  assume "status_query store job = Inr r"
  then show "reply_status r \<in> {''queued'', ''in_progress'', ''completed'', ''failed'', ''cancelled''}"
    by (rule status_query_literal)
qed

theorem C2_job_status_five_values_witness:
  "status_query (lifecycle_run (snd (submit [])) [Dispatch ''0'', Cancel ''0'', CancelElapsed ''0''])
     ''0'' = Inr \<lparr>reply_status = ''cancelled'', reply_progress = 0\<rparr> \<and>
   ''cancelled'' \<in> {''queued'', ''in_progress'', ''completed'', ''failed'', ''cancelled''}"
proof -
  have q: "status_query
      (lifecycle_run (snd (submit [])) [Dispatch ''0'', Cancel ''0'', CancelElapsed ''0'']) ''0''
      = Inr \<lparr>reply_status = ''cancelled'', reply_progress = 0\<rparr>"
    by (simp add: submit_def show_nat.simps digit_char_def lifecycle_run_def status_query_def
          get_job_def put_job_def dispatch_def cancel_def cancel_elapsed_def
          cancel_job_def keep_on_error_def)
  from C2_job_status_five_values
         [of "lifecycle_run (snd (submit [])) [Dispatch ''0'', Cancel ''0'', CancelElapsed ''0'']"
             "''0''" "\<lparr>reply_status = ''cancelled'', reply_progress = 0\<rparr>"] q
  have "reply_status \<lparr>reply_status = ''cancelled'', reply_progress = 0\<rparr>
          \<in> {''queued'', ''in_progress'', ''completed'', ''failed'', ''cancelled''}"
    by blast
  with q show ?thesis by simp
qed

lemma cancel_accepts:
  assumes "get_job store job = Inr j"
  shows "cancel store job =
           (if spec_job_status j = Queued then Inr (put_job store (j\<lparr>spec_job_status := Cancelled\<rparr>))
            else if spec_job_status j = InProgress then Inr (put_job store (j\<lparr>cancel_requested := True\<rparr>))
            else Inl InvalidTransition)"
  using assms by (simp add: cancel_def)

text \<open>
  C7: the cancel-job operation, given the id of a job, returns a record of the shape
  \<^verbatim>\<open>{accepted: bool}\<close> that tells whether the cancellation was accepted: \<^verbatim>\<open>accepted\<close>
  is true exactly when the job was queued or in progress. A queued job is then
  cancelled; a cancellation that is not accepted leaves the store as it is. Only an id
  that names no job is answered with the error NotFound instead.
\<close>

theorem C7_cancel_job_returns_accepted:
  "(get_job store job = Inl NotFound \<longrightarrow> cancel_job store job = Inl NotFound) \<and>
   (get_job store job = Inr j \<longrightarrow>
      (\<exists>store'. cancel_job store job =
                  Inr (\<lparr>accepted = (spec_job_status j = Queued \<or> spec_job_status j = InProgress)\<rparr>,
                       store') \<and>
                (spec_job_status j = Queued \<longrightarrow>
                   status_query store' job =
                     Inr \<lparr>reply_status = ''cancelled'', reply_progress = job_progress j\<rparr>) \<and>
                (spec_job_status j \<noteq> Queued \<and> spec_job_status j \<noteq> InProgress \<longrightarrow>
                   store' = store)))"
proof (intro conjI impI)
  assume "get_job store job = Inl NotFound"
  then show "cancel_job store job = Inl NotFound"
    by (simp add: cancel_job_def)
next
  assume g: "get_job store job = Inr j"
  then have id: "spec_id j = job" by (rule get_job_id)
  show "\<exists>store'. cancel_job store job =
                  Inr (\<lparr>accepted = (spec_job_status j = Queued \<or> spec_job_status j = InProgress)\<rparr>,
                       store') \<and>
                (spec_job_status j = Queued \<longrightarrow>
                   status_query store' job =
                     Inr \<lparr>reply_status = ''cancelled'', reply_progress = job_progress j\<rparr>) \<and>
                (spec_job_status j \<noteq> Queued \<and> spec_job_status j \<noteq> InProgress \<longrightarrow>
                   store' = store)"
  proof (cases "spec_job_status j = Queued")
    case True
    from get_job_put_job [OF g, of "j\<lparr>spec_job_status := Cancelled\<rparr>"] id
    have "get_job (put_job store (j\<lparr>spec_job_status := Cancelled\<rparr>)) job
            = Inr (j\<lparr>spec_job_status := Cancelled\<rparr>)"
      by simp
    with g True show ?thesis
      by (simp add: cancel_job_def cancel_accepts status_query_def)
  next
    case False
    with g show ?thesis
      by (simp add: cancel_job_def cancel_accepts)
  qed
qed

theorem C7_cancel_job_returns_accepted_witness:
  "get_job (snd (submit [])) ''0'' =
     Inr \<lparr>spec_id = ''0'', spec_job_status = Queued, job_progress = 0, cancel_requested = False\<rparr> \<and>
   (\<exists>store'. cancel_job (snd (submit [])) ''0'' = Inr (\<lparr>accepted = True\<rparr>, store') \<and>
      status_query store' ''0'' = Inr \<lparr>reply_status = ''cancelled'', reply_progress = 0\<rparr>)"
proof -
  have g: "get_job (snd (submit [])) ''0'' =
     Inr \<lparr>spec_id = ''0'', spec_job_status = Queued, job_progress = 0, cancel_requested = False\<rparr>"
    by (simp add: submit_def show_nat.simps digit_char_def get_job_def)
  from C7_cancel_job_returns_accepted
         [of "snd (submit [])" "''0''"
             "\<lparr>spec_id = ''0'', spec_job_status = Queued, job_progress = 0, cancel_requested = False\<rparr>"] g
  show ?thesis by simp
qed

section \<open>Results about live sessions\<close>

lemma session_states_reached:
  "spec_state (session_run (startSession sid t) []) = Active"
  "spec_state (session_run (startSession sid t) [EndSession_op]) = Ended"
  "spec_state (session_run (startSession sid t) [Disconnect]) = Errored"
  by (simp_all add: session_run_def startSession_def endSession_def disconnect_def)

lemma spec_session_state_literal_three:
  "spec_session_state_literal s \<in> {''active'', ''ended'', ''errored''}"
  by (cases s) simp_all

text \<open>
  C8: a live session's state ranges over exactly the three values active, ended and
  errored. The session that \<^verbatim>\<open>startSession\<close> returns is active, and the states in
  which a session is observed after any sequence of operations are exactly these
  three: each is reached, and no other is.
\<close>

theorem C8_session_state_three_values:
  "spec_session_state_literal (spec_state (startSession sid t)) = ''active'' \<and>
   {spec_session_state_literal (spec_state (session_run (startSession sid t) ops)) | ops. True} =
     {''active'', ''ended'', ''errored''} \<and>
   card {''active'', ''ended'', ''errored''} = 3"
proof (intro conjI)
  show "spec_session_state_literal (spec_state (startSession sid t)) = ''active''"
    by (simp add: startSession_def)
  show "{spec_session_state_literal (spec_state (session_run (startSession sid t) ops)) | ops. True} =
     {''active'', ''ended'', ''errored''}" (is "?L = ?R")
  proof (rule set_eqI, rule iffI)
    fix u assume "u \<in> ?L"
    then show "u \<in> ?R" using spec_session_state_literal_three by auto
  next
    fix u assume "u \<in> ?R"
    then consider "u = ''active''" | "u = ''ended''" | "u = ''errored''" by auto
    then show "u \<in> ?L"
    proof cases
      case 1
      have "spec_session_state_literal (spec_state (session_run (startSession sid t) [])) = ''active''"
        by (simp add: session_states_reached)
      with 1 show ?thesis by (auto intro: exI [of _ "[]"])
    next
      case 2
      have "spec_session_state_literal (spec_state (session_run (startSession sid t) [EndSession_op]))
              = ''ended''"
        by (simp add: session_states_reached)
      with 2 show ?thesis by (auto intro: exI [of _ "[EndSession_op]"])
    next
      case 3
      have "spec_session_state_literal (spec_state (session_run (startSession sid t) [Disconnect]))
              = ''errored''"
        by (simp add: session_states_reached)
      with 3 show ?thesis by (auto intro: exI [of _ "[Disconnect]"])
    qed
  qed
  show "card {''active'', ''ended'', ''errored''} = 3"
    by simp
qed

theorem C8_session_state_three_values_witness:
  "spec_session_state_literal
     (spec_state (session_run (startSession ''s1'' ''t'')
        [PostMessage User ''hi'' ''text'', PostMessage Assistant ''hello'' ''text'', Disconnect]))
     = ''errored'' \<and>
   ''errored'' \<in> {spec_session_state_literal (spec_state (session_run (startSession ''s1'' ''t'') ops))
                    | ops. True}"
proof -
  have "spec_session_state_literal
     (spec_state (session_run (startSession ''s1'' ''t'')
        [PostMessage User ''hi'' ''text'', PostMessage Assistant ''hello'' ''text'', Disconnect]))
     = ''errored''"
    by (simp add: session_run_def startSession_def postMessage_def disconnect_def)
  moreover from C8_session_state_three_values [of "''s1''" "''t''"]
  have "''errored'' \<in> {spec_session_state_literal
                          (spec_state (session_run (startSession ''s1'' ''t'') ops)) | ops. True}"
    by simp
  ultimately show ?thesis by blast
qed

section \<open>Results about the live session component\<close>

lemma ws_send_messages: "ws_send st w f = Inr st' \<Longrightarrow> messages st' = messages st"
  by (auto simp: ws_send_def split: if_splits readyState.splits)

lemma ws_close_fields:
  "messages (ws_close st w) = messages st"
  "session (ws_close st w) = session st"
  "summary (ws_close st w) = summary st"
  "wsRef (ws_close st w) = wsRef st"
  by (simp_all add: ws_close_def)

lemma sendMessage_messages:
  "messages (sendMessage st now) = messages st \<or>
   messages (sendMessage st now) = messages st @
      [JObj [(''type'', JStr ''user_message''), (''content'', JStr (currentMessage st)),
             (''timestamp'', JStr now), (''sender'', JStr ''user'')]]"
  by (auto simp: sendMessage_def dest: ws_send_messages split: sum.splits)

lemma sendMessage_fields:
  "session (sendMessage st now) = session st"
  "wsRef (sendMessage st now) = wsRef st"
  "summary (sendMessage st now) = summary st"
  by (auto simp: sendMessage_def ws_send_def split: sum.splits readyState.splits)

lemma endSession_settled_messages: "messages (endSession_settled st reply) = messages st"
  by (simp add: endSession_settled_def Let_def ws_close_fields split: sum.splits option.splits)

lemma startSession_settled_messages: "messages (startSession_settled st reply) = messages st"
  by (simp add: startSession_settled_def split: sum.splits)

lemma live_step_messages:
  "messages (live_step st ev) = messages st \<or> (\<exists>e. messages (live_step st ev) = messages st @ [e])"
proof (cases ev)
  case (SendMessage now)
  then show ?thesis using sendMessage_messages [of st now] by auto
next
  case (WsMessage payload now)
  then show ?thesis
    by (simp add: ws_onmessage_def onMessage_def onError_def split: option.splits)
qed (simp_all add: startSession_call_def startSession_settled_messages endSession_call_def
       endSession_settled_messages onError_def onClose_def split: option.splits)

lemma live_run_snoc: "live_run st (evs @ [ev]) = live_step (live_run st evs) ev"
  by (simp add: live_run_def)

lemma live_run_prefix: "prefix (messages st) (messages (live_run st evs))"
proof (induction evs rule: rev_induct)
  case Nil
  show ?case by (simp add: live_run_def)
next
  case (snoc ev evs)
  from live_step_messages [of "live_run st evs" ev]
  have step: "prefix (messages (live_run st evs)) (messages (live_step (live_run st evs) ev))"
    by auto
  from prefix_order.trans [OF snoc step] show ?case
    by (simp only: live_run_snoc)
qed

lemma live_run_length: "length (messages (live_run st evs)) \<le> length (messages st) + length evs"
proof (induction evs rule: rev_induct)
  case Nil
  show ?case by (simp add: live_run_def)
next
  case (snoc ev evs)
  from live_step_messages [of "live_run st evs" ev]
  have "length (messages (live_step (live_run st evs) ev)) \<le> length (messages (live_run st evs)) + 1"
    by auto
  with snoc show ?case
    by (simp add: live_run_snoc)
qed

text \<open>
  C4: for every state of a live session and every interleaving of the events of the
  component (user sends, replies arriving over the WebSocket, and all the others),
  each event either leaves the message list as it is or appends exactly one entry at
  its end; an arriving reply appends the received data stamped with the arrival time.
  So after any sequence of events the earlier list is a prefix of the later one: no
  entry is removed, reordered or modified, and the entries stand in arrival order.
\<close>

theorem C4_messages_append_only:
  "(messages (live_step st ev) = messages st \<or>
      (\<exists>e. messages (live_step st ev) = messages st @ [e])) \<and>
   messages (live_step st (WsMessage (Some data) now)) =
      messages st @ [JObj (AList.update ''timestamp'' (JStr now) (spread data))] \<and>
   prefix (messages st) (messages (live_run st evs)) \<and>
   (\<forall>i < length (messages st). messages (live_run st evs) ! i = messages st ! i) \<and>
   length (messages (live_run st evs)) \<le> length (messages st) + length evs"
proof (intro conjI allI impI)
  show "messages (live_step st ev) = messages st \<or>
      (\<exists>e. messages (live_step st ev) = messages st @ [e])"
    by (rule live_step_messages)
  show "messages (live_step st (WsMessage (Some data) now)) =
      messages st @ [JObj (AList.update ''timestamp'' (JStr now) (spread data))]"
    by (simp add: ws_onmessage_def onMessage_def)
  show "prefix (messages st) (messages (live_run st evs))"
    by (rule live_run_prefix)
  show "length (messages (live_run st evs)) \<le> length (messages st) + length evs"
    by (rule live_run_length)
next
  fix i assume i: "i < length (messages st)"
  from live_run_prefix [of st evs] obtain zs
    where "messages (live_run st evs) = messages st @ zs"
    by (auto simp: prefix_def)
  with i show "messages (live_run st evs) ! i = messages st ! i"
    by (simp add: nth_append)
qed

theorem C4_messages_append_only_witness:
  "messages (live_run initial_LiveSession_state
     [StartSession,
      StartSessionSettled (Inr \<lparr>session_id = ''s1'', topic = ''t'', session_status = active,
         started_at = ''2025-01-01T00:00:00Z'', modalities = [''TEXT'', ''AUDIO''],
         participants = None\<rparr>),
      WsOpened 0,
      SetCurrentMessage ''hi'',
      SendMessage ''T1'']) =
     [JObj [(''type'', JStr ''user_message''), (''content'', JStr ''hi''),
            (''timestamp'', JStr ''T1''), (''sender'', JStr ''user'')]] \<and>
   messages (live_step (live_run initial_LiveSession_state
     [StartSession,
      StartSessionSettled (Inr \<lparr>session_id = ''s1'', topic = ''t'', session_status = active,
         started_at = ''2025-01-01T00:00:00Z'', modalities = [''TEXT'', ''AUDIO''],
         participants = None\<rparr>),
      WsOpened 0,
      SetCurrentMessage ''hi'',
      SendMessage ''T1''])
     (WsMessage (Some (JObj [(''type'', JStr ''assistant_message''), (''content'', JStr ''hello'')]))
        ''T2'')) =
     [JObj [(''type'', JStr ''user_message''), (''content'', JStr ''hi''),
            (''timestamp'', JStr ''T1''), (''sender'', JStr ''user'')],
      JObj [(''type'', JStr ''assistant_message''), (''content'', JStr ''hello''),
            (''timestamp'', JStr ''T2'')]]"
proof -
  let ?evs = "[StartSession,
      StartSessionSettled (Inr \<lparr>session_id = ''s1'', topic = ''t'', session_status = active,
         started_at = ''2025-01-01T00:00:00Z'', modalities = [''TEXT'', ''AUDIO''],
         participants = None\<rparr>),
      WsOpened 0,
      SetCurrentMessage ''hi'',
      SendMessage ''T1'']"
  have run: "messages (live_run initial_LiveSession_state ?evs) =
     [JObj [(''type'', JStr ''user_message''), (''content'', JStr ''hi''),
            (''timestamp'', JStr ''T1''), (''sender'', JStr ''user'')]]"
    by (simp add: live_run_def initial_LiveSession_state_def startSession_call_def
          startSession_settled_def sendMessage_def ws_send_def is_blank_def is_white_space_def
          numeral_2_eq_2)
  from C4_messages_append_only
         [of "live_run initial_LiveSession_state ?evs" StartSession
             "JObj [(''type'', JStr ''assistant_message''), (''content'', JStr ''hello'')]" "''T2''" "[]"]
  have "messages (live_step (live_run initial_LiveSession_state ?evs)
          (WsMessage (Some (JObj [(''type'', JStr ''assistant_message''), (''content'', JStr ''hello'')]))
             ''T2'')) =
        messages (live_run initial_LiveSession_state ?evs) @
          [JObj (AList.update ''timestamp'' (JStr ''T2'')
             (spread (JObj [(''type'', JStr ''assistant_message''), (''content'', JStr ''hello'')])))]"
    by blast
  with run show ?thesis by simp
qed

lemma startSession_settled_keeps_session:
  "session st \<noteq> None \<Longrightarrow> session (startSession_settled st reply) \<noteq> None"
  "wsRef st \<noteq> None \<Longrightarrow> wsRef (startSession_settled st reply) \<noteq> None"
  by (simp_all add: startSession_settled_def split: sum.splits)

lemma endSession_settled_rejected:
  "endSession_settled st (Inl e) = st\<lparr>toasts := toasts st @ [toast_error ''Failed to end session'']\<rparr>"
  by (simp add: endSession_settled_def)

lemma endSession_settled_resolved:
  "session (endSession_settled st (Inr sm)) = None"
  "wsRef (endSession_settled st (Inr sm)) = None"
  "summary (endSession_settled st (Inr sm)) = Some sm"
  "sockets (endSession_settled st (Inr sm)) =
     (case wsRef st of None \<Rightarrow> sockets st | Some w \<Rightarrow> sockets (ws_close st w))"
  by (auto simp: endSession_settled_def Let_def ws_close_def split: option.splits)

lemma live_step_clears_only_on_summary:
  assumes "(session st \<noteq> None \<and> session (live_step st ev) = None) \<or>
           (wsRef st \<noteq> None \<and> wsRef (live_step st ev) = None)"
  shows "\<exists>sm. ev = EndSessionSettled (Inr sm) \<and> summary (live_step st ev) = Some sm"
proof (cases ev)
  case (EndSessionSettled reply)
  show ?thesis
  proof (cases reply)
    case (Inl e)
    with assms EndSessionSettled show ?thesis
      by (auto simp: endSession_settled_rejected split: if_splits)
  next
    case (Inr sm)
    with assms EndSessionSettled show ?thesis
      by (auto simp: endSession_settled_resolved split: if_splits)
  qed
next
  case (StartSessionSettled reply)
  with assms show ?thesis
    by (auto simp: startSession_settled_def split: if_splits sum.splits)
next
  case (SendMessage now)
  with assms show ?thesis by (auto simp: sendMessage_fields)
qed (use assms in \<open>auto simp: startSession_call_def endSession_call_def ws_onmessage_def
       onMessage_def onError_def onClose_def split: option.splits if_splits\<close>)

text \<open>
  C10: ending a live session is atomic with respect to the client state. When the
  \<^verbatim>\<open>endLiveResearchSession\<close> call rejects, whatever happened while it was awaited, the
  session, the WebSocket reference, the sockets and the summary are left as they were
  (the session stays open in the UI and no summary is shown), and so does clicking
  End itself. Only the continuation of a call that returned a summary stores the
  summary, closes the WebSocket and clears the reference and the session; no other
  event of the component clears the session or the reference.
\<close>

theorem C10_endSession_atomic:
  "(session (live_step st (EndSessionSettled (Inl e))) = session st \<and>
    wsRef (live_step st (EndSessionSettled (Inl e))) = wsRef st \<and>
    sockets (live_step st (EndSessionSettled (Inl e))) = sockets st \<and>
    summary (live_step st (EndSessionSettled (Inl e))) = summary st) \<and>
   (session (live_step st EndSession) = session st \<and>
    wsRef (live_step st EndSession) = wsRef st \<and>
    sockets (live_step st EndSession) = sockets st \<and>
    summary (live_step st EndSession) = summary st) \<and>
   (0 < pending_end st \<longrightarrow>
      summary (live_step st (EndSessionSettled (Inr sm))) = Some sm \<and>
      session (live_step st (EndSessionSettled (Inr sm))) = None \<and>
      wsRef (live_step st (EndSessionSettled (Inr sm))) = None \<and>
      sockets (live_step st (EndSessionSettled (Inr sm))) =
        (case wsRef st of None \<Rightarrow> sockets st | Some w \<Rightarrow> sockets (ws_close st w))) \<and>
   ((session st \<noteq> None \<and> session (live_step st ev) = None) \<or>
    (wsRef st \<noteq> None \<and> wsRef (live_step st ev) = None) \<longrightarrow>
      (\<exists>sm'. ev = EndSessionSettled (Inr sm') \<and> summary (live_step st ev) = Some sm'))"
proof (intro conjI impI)
  show "session (live_step st (EndSessionSettled (Inl e))) = session st"
    and "wsRef (live_step st (EndSessionSettled (Inl e))) = wsRef st"
    and "sockets (live_step st (EndSessionSettled (Inl e))) = sockets st"
    and "summary (live_step st (EndSessionSettled (Inl e))) = summary st"
    by (simp_all add: endSession_settled_rejected)
  show "session (live_step st EndSession) = session st"
    and "wsRef (live_step st EndSession) = wsRef st"
    and "sockets (live_step st EndSession) = sockets st"
    and "summary (live_step st EndSession) = summary st"
    by (simp_all add: endSession_call_def split: option.splits)
next
  assume p: "0 < pending_end st"
  then show "summary (live_step st (EndSessionSettled (Inr sm))) = Some sm"
    and "session (live_step st (EndSessionSettled (Inr sm))) = None"
    and "wsRef (live_step st (EndSessionSettled (Inr sm))) = None"
    by (simp_all add: endSession_settled_resolved)
  from p show "sockets (live_step st (EndSessionSettled (Inr sm))) =
        (case wsRef st of None \<Rightarrow> sockets st | Some w \<Rightarrow> sockets (ws_close st w))"
    by (auto simp: endSession_settled_resolved ws_close_def split: option.splits)
next
  assume "(session st \<noteq> None \<and> session (live_step st ev) = None) \<or>
          (wsRef st \<noteq> None \<and> wsRef (live_step st ev) = None)"
  then show "\<exists>sm'. ev = EndSessionSettled (Inr sm') \<and> summary (live_step st ev) = Some sm'"
    by (rule live_step_clears_only_on_summary)
qed

theorem C10_endSession_atomic_witness:
  "session (live_step (live_run initial_LiveSession_state
     [StartSession,
      StartSessionSettled (Inr \<lparr>session_id = ''s1'', topic = ''t'', session_status = active,
         started_at = ''2025-01-01T00:00:00Z'', modalities = [''TEXT'', ''AUDIO''],
         participants = None\<rparr>),
      WsOpened 0,
      EndSession]) (EndSessionSettled (Inl TypeError))) =
     Some \<lparr>session_id = ''s1'', topic = ''t'', session_status = active,
         started_at = ''2025-01-01T00:00:00Z'', modalities = [''TEXT'', ''AUDIO''],
         participants = None\<rparr> \<and>
   wsRef (live_step (live_run initial_LiveSession_state
     [StartSession,
      StartSessionSettled (Inr \<lparr>session_id = ''s1'', topic = ''t'', session_status = active,
         started_at = ''2025-01-01T00:00:00Z'', modalities = [''TEXT'', ''AUDIO''],
         participants = None\<rparr>),
      WsOpened 0,
      EndSession]) (EndSessionSettled (Inl TypeError))) = Some 0 \<and>
   sockets (live_step (live_run initial_LiveSession_state
     [StartSession,
      StartSessionSettled (Inr \<lparr>session_id = ''s1'', topic = ''t'', session_status = active,
         started_at = ''2025-01-01T00:00:00Z'', modalities = [''TEXT'', ''AUDIO''],
         participants = None\<rparr>),
      WsOpened 0,
      EndSession]) (EndSessionSettled (Inl TypeError))) = [OPEN] \<and>
   summary (live_step (live_run initial_LiveSession_state
     [StartSession,
      StartSessionSettled (Inr \<lparr>session_id = ''s1'', topic = ''t'', session_status = active,
         started_at = ''2025-01-01T00:00:00Z'', modalities = [''TEXT'', ''AUDIO''],
         participants = None\<rparr>),
      WsOpened 0,
      EndSession]) (EndSessionSettled (Inl TypeError))) = None \<and>
   0 < pending_end (live_run initial_LiveSession_state
     [StartSession,
      StartSessionSettled (Inr \<lparr>session_id = ''s1'', topic = ''t'', session_status = active,
         started_at = ''2025-01-01T00:00:00Z'', modalities = [''TEXT'', ''AUDIO''],
         participants = None\<rparr>),
      WsOpened 0,
      EndSession])"
proof -
  let ?s = "\<lparr>session_id = ''s1'', topic = ''t'', session_status = active,
         started_at = ''2025-01-01T00:00:00Z'', modalities = [''TEXT'', ''AUDIO''],
         participants = None\<rparr>"
  let ?st = "live_run initial_LiveSession_state
     [StartSession, StartSessionSettled (Inr ?s), WsOpened 0, EndSession]"
  have st: "session ?st = Some ?s" "wsRef ?st = Some 0" "sockets ?st = [OPEN]"
    "summary ?st = None" "0 < pending_end ?st"
    by (simp_all add: live_run_def initial_LiveSession_state_def startSession_call_def
          startSession_settled_def endSession_call_def)
  from C10_endSession_atomic [of ?st TypeError
         "\<lparr>summary_session_id = ''s1'', summary_topic = ''t'', duration_minutes = 1,
           total_interactions = 0\<rparr>" StartSession]
  have "session (live_step ?st (EndSessionSettled (Inl TypeError))) = session ?st"
    and "wsRef (live_step ?st (EndSessionSettled (Inl TypeError))) = wsRef ?st"
    and "sockets (live_step ?st (EndSessionSettled (Inl TypeError))) = sockets ?st"
    and "summary (live_step ?st (EndSessionSettled (Inl TypeError))) = summary ?st"
    by blast+
  with st show ?thesis by (simp only: simp_thms)
qed

section \<open>Results about the batch form\<close>

lemma fetch_after_completed_snoc:
  assumes inv: "\<forall>i<length tr. \<forall>b. tr ! i = Call_getBatchResearchResults b \<longrightarrow>
                  0 < i \<and> tr ! (i - 1) = Returned_getBatchResearchStatus b ''completed''"
    and e: "\<forall>b. e = Call_getBatchResearchResults b \<longrightarrow>
                  tr \<noteq> [] \<and> last tr = Returned_getBatchResearchStatus b ''completed''"
  shows "\<forall>i<length (tr @ [e]). \<forall>b. (tr @ [e]) ! i = Call_getBatchResearchResults b \<longrightarrow>
                  0 < i \<and> (tr @ [e]) ! (i - 1) = Returned_getBatchResearchStatus b ''completed''"
proof (intro allI impI)
  fix i b
  assume i: "i < length (tr @ [e])" and c: "(tr @ [e]) ! i = Call_getBatchResearchResults b"
  show "0 < i \<and> (tr @ [e]) ! (i - 1) = Returned_getBatchResearchStatus b ''completed''"
  proof (cases "i < length tr")
    case True
    with c have "tr ! i = Call_getBatchResearchResults b" by (simp add: nth_append)
    with inv True have "0 < i \<and> tr ! (i - 1) = Returned_getBatchResearchStatus b ''completed''"
      by blast
    moreover from True have "i - 1 < length tr" by arith
    ultimately show ?thesis by (simp add: nth_append)
  next
    case False
    with i have il: "i = length tr" by simp
    with c have "e = Call_getBatchResearchResults b" by simp
    with e have ne: "tr \<noteq> []" and l: "last tr = Returned_getBatchResearchStatus b ''completed''"
      by blast+
    from ne il have "0 < i" by simp
    moreover from ne il l have "(tr @ [e]) ! (i - 1) = Returned_getBatchResearchStatus b ''completed''"
      by (simp add: nth_append last_conv_nth)
    ultimately show ?thesis by blast
  qed
qed

lemma fetch_after_completed_iff:
  "fetch_after_completed tr \<longleftrightarrow>
     (\<forall>i<length tr. \<forall>b. tr ! i = Call_getBatchResearchResults b \<longrightarrow>
                  0 < i \<and> tr ! (i - 1) = Returned_getBatchResearchStatus b ''completed'')"
  by (auto simp: fetch_after_completed_def list_all_iff split: api_event.splits)

lemma fac_snoc:
  "fetch_after_completed tr \<Longrightarrow>
   (\<forall>b. e = Call_getBatchResearchResults b \<longrightarrow>
        tr \<noteq> [] \<and> last tr = Returned_getBatchResearchStatus b ''completed'') \<Longrightarrow>
   fetch_after_completed (tr @ [e])"
  unfolding fetch_after_completed_iff by (rule fetch_after_completed_snoc)

lemma pollStatus_call_fac:
  "fetch_after_completed (api_log st) \<Longrightarrow> fetch_after_completed (api_log (pollStatus_call st b))"
  by (simp add: pollStatus_call_def fac_snoc)

lemma batch_effect_fac:
  "fetch_after_completed (api_log st) \<Longrightarrow> fetch_after_completed (api_log (batch_effect st))"
  by (simp add: batch_effect_def pollStatus_call_fac split: option.splits)

lemma setBatchId_fac:
  "fetch_after_completed (api_log st) \<Longrightarrow> fetch_after_completed (api_log (setBatchId st b))"
  by (simp add: setBatchId_def batch_effect_fac)

lemma status_settled_fac:
  assumes "fetch_after_completed (api_log st)"
  shows "fetch_after_completed (api_log (pollStatus_status_settled st b reply))"
proof (cases reply)
  case (Inl e)
  with assms show ?thesis by (simp add: pollStatus_status_settled_def fac_snoc)
next
  case (Inr s)
  from assms have 1: "fetch_after_completed (api_log st @ [Returned_getBatchResearchStatus b (batch_status s)])"
    by (simp add: fac_snoc)
  show ?thesis
  proof (cases "batch_status s = ''completed''")
    case True
    with 1 have 2: "fetch_after_completed (api_log st @ [Returned_getBatchResearchStatus b ''completed''])"
      by simp
    have "fetch_after_completed
       ((api_log st @ [Returned_getBatchResearchStatus b ''completed'']) @ [Call_getBatchResearchResults b])"
      by (rule fac_snoc [OF 2]) simp
    with Inr True show ?thesis by (simp add: pollStatus_status_settled_def Let_def)
  next
    case False
    with Inr 1 show ?thesis by (simp add: pollStatus_status_settled_def Let_def)
  qed
qed

lemma results_settled_fac:
  "fetch_after_completed (api_log st) \<Longrightarrow>
   fetch_after_completed (api_log (pollStatus_results_settled st b reply))"
  by (cases reply) (simp_all add: pollStatus_results_settled_def fac_snoc)

lemma batch_step_fac:
  assumes "fetch_after_completed (api_log st)"
  shows "fetch_after_completed (api_log (batch_step st ev))"
proof (cases ev)
  case (SubmitResolved b)
  with assms show ?thesis by (simp add: setBatchId_fac)
next
  case StopBatch
  with assms show ?thesis by (simp add: stopBatch_def setBatchId_fac)
next
  case CloseResults
  with assms show ?thesis by simp
next
  case PollTick
  with assms show ?thesis by (simp add: pollStatus_call_fac split: option.splits)
next
  case (StatusSettled k reply)
  with assms show ?thesis by (simp add: status_settled_fac)
next
  case (ResultsSettled k reply)
  with assms show ?thesis by (simp add: results_settled_fac)
qed

lemma batch_run_fac:
  "fetch_after_completed (api_log st) \<Longrightarrow> fetch_after_completed (api_log (batch_run st evs))"
  unfolding batch_run_def
  by (induction evs arbitrary: st) (simp_all add: batch_step_fac)


lemma initial_fac: "fetch_after_completed (api_log initial_BatchForm_state)"
  by (simp add: fetch_after_completed_def initial_BatchForm_state_def)

text \<open>
  C5: in every run of the batch form from its mounting, under every interleaving of
  its events, each call of \<^verbatim>\<open>getBatchResearchResults(b)\<close> comes directly after a
  \<^verbatim>\<open>getBatchResearchStatus\<close> poll for the same batch \<open>b\<close> has returned the status
  \<^verbatim>\<open>completed\<close>. So while no poll has reported \<^verbatim>\<open>completed\<close> the results fetch never
  happens, and a poll that reports any other status is followed by no call at all.
\<close>

theorem C5_results_fetched_only_after_completed:
  "(\<forall>i<length (api_log (batch_run initial_BatchForm_state evs)). \<forall>b.
      api_log (batch_run initial_BatchForm_state evs) ! i = Call_getBatchResearchResults b \<longrightarrow>
        0 < i \<and>
        api_log (batch_run initial_BatchForm_state evs) ! (i - 1)
          = Returned_getBatchResearchStatus b ''completed'') \<and>
   ((\<forall>b. Returned_getBatchResearchStatus b ''completed''
            \<notin> set (api_log (batch_run initial_BatchForm_state evs))) \<longrightarrow>
    (\<forall>b. Call_getBatchResearchResults b
            \<notin> set (api_log (batch_run initial_BatchForm_state evs)))) \<and>
   (k < length (awaiting_status st) \<and> batch_status reply \<noteq> ''completed'' \<longrightarrow>
      api_log (batch_step st (StatusSettled k (Inr reply))) =
        api_log st @ [Returned_getBatchResearchStatus (awaiting_status st ! k) (batch_status reply)] \<and>
      awaiting_results (batch_step st (StatusSettled k (Inr reply))) = awaiting_results st)"
proof (intro conjI)
  let ?tr = "api_log (batch_run initial_BatchForm_state evs)"
  have fac: "fetch_after_completed ?tr"
    by (rule batch_run_fac [OF initial_fac])
  then show 1: "\<forall>i<length ?tr. \<forall>b. ?tr ! i = Call_getBatchResearchResults b \<longrightarrow>
        0 < i \<and> ?tr ! (i - 1) = Returned_getBatchResearchStatus b ''completed''"
    by (simp only: fetch_after_completed_iff)
  show "(\<forall>b. Returned_getBatchResearchStatus b ''completed'' \<notin> set ?tr) \<longrightarrow>
        (\<forall>b. Call_getBatchResearchResults b \<notin> set ?tr)"
  proof (intro impI allI notI)
    fix b
    assume none: "\<forall>b. Returned_getBatchResearchStatus b ''completed'' \<notin> set ?tr"
      and "Call_getBatchResearchResults b \<in> set ?tr"
    then obtain i where i: "i < length ?tr" and c: "?tr ! i = Call_getBatchResearchResults b"
      by (auto simp: in_set_conv_nth)
    with 1 have p: "0 < i" and r: "?tr ! (i - 1) = Returned_getBatchResearchStatus b ''completed''"
      by blast+
    from i have "i - 1 < length ?tr" by arith
    then have "?tr ! (i - 1) \<in> set ?tr" by (rule nth_mem)
    with r none show False by simp
  qed
  show "k < length (awaiting_status st) \<and> batch_status reply \<noteq> ''completed'' \<longrightarrow>
      api_log (batch_step st (StatusSettled k (Inr reply))) =
        api_log st @ [Returned_getBatchResearchStatus (awaiting_status st ! k) (batch_status reply)] \<and>
      awaiting_results (batch_step st (StatusSettled k (Inr reply))) = awaiting_results st"
    by (simp add: pollStatus_status_settled_def Let_def)
qed

theorem C5_results_fetched_only_after_completed_witness:
  "api_log (batch_run initial_BatchForm_state
     [SubmitResolved ''b1'',
      StatusSettled 0 (Inr \<lparr>batch_id = ''b1'', batch_status = ''in_progress'', batch_progress = 1 / 2,
         completed_topics = [''A''], failed_topics = []\<rparr>),
      PollTick,
      StatusSettled 0 (Inr \<lparr>batch_id = ''b1'', batch_status = ''completed'', batch_progress = 1,
         completed_topics = [''A''], failed_topics = [''B'']\<rparr>)]) =
     [Call_getBatchResearchStatus ''b1'',
      Returned_getBatchResearchStatus ''b1'' ''in_progress'',
      Call_getBatchResearchStatus ''b1'',
      Returned_getBatchResearchStatus ''b1'' ''completed'',
      Call_getBatchResearchResults ''b1''] \<and>
   api_log (batch_run initial_BatchForm_state
     [SubmitResolved ''b1'',
      StatusSettled 0 (Inr \<lparr>batch_id = ''b1'', batch_status = ''in_progress'', batch_progress = 1 / 2,
         completed_topics = [''A''], failed_topics = []\<rparr>),
      PollTick,
      StatusSettled 0 (Inr \<lparr>batch_id = ''b1'', batch_status = ''completed'', batch_progress = 1,
         completed_topics = [''A''], failed_topics = [''B'']\<rparr>)]) ! (4 - 1)
     = Returned_getBatchResearchStatus ''b1'' ''completed''"
proof -
  let ?evs = "[SubmitResolved ''b1'',
      StatusSettled 0 (Inr \<lparr>batch_id = ''b1'', batch_status = ''in_progress'', batch_progress = 1 / 2,
         completed_topics = [''A''], failed_topics = []\<rparr>),
      PollTick,
      StatusSettled 0 (Inr \<lparr>batch_id = ''b1'', batch_status = ''completed'', batch_progress = 1,
         completed_topics = [''A''], failed_topics = [''B'']\<rparr>)]"
  have run: "api_log (batch_run initial_BatchForm_state ?evs) =
     [Call_getBatchResearchStatus ''b1'',
      Returned_getBatchResearchStatus ''b1'' ''in_progress'',
      Call_getBatchResearchStatus ''b1'',
      Returned_getBatchResearchStatus ''b1'' ''completed'',
      Call_getBatchResearchResults ''b1'']"
    by (simp add: batch_run_def initial_BatchForm_state_def setBatchId_def batch_effect_def
          pollStatus_call_def pollStatus_status_settled_def remove_nth_def)
  then have len: "4 < length (api_log (batch_run initial_BatchForm_state ?evs))"
    and at: "api_log (batch_run initial_BatchForm_state ?evs) ! 4 = Call_getBatchResearchResults ''b1''"
    by simp_all
  from C5_results_fetched_only_after_completed [of ?evs 0 initial_BatchForm_state
         "\<lparr>batch_id = ''b1'', batch_status = ''in_progress'', batch_progress = 1 / 2,
           completed_topics = [''A''], failed_topics = []\<rparr>"] len at
  have "api_log (batch_run initial_BatchForm_state ?evs) ! (4 - 1)
          = Returned_getBatchResearchStatus ''b1'' ''completed''"
    by blast
  with run show ?thesis by blast
qed

section \<open>Results about StatusDisplay\<close>


















end
